theory Spec2Isabelle
  imports Main "HOL-Library.Log_Nat"
begin

section \<open>Python values used by evdev/events.py\<close>

text \<open>
  The exceptions that the modelled code can raise.  \<open>KeyError k\<close> is the exception of a
  dictionary lookup \<open>d[k]\<close> that misses; its only argument is the missing key.
  \<open>AttributeError a\<close> is raised by reading a slot \<open>a\<close> that was never assigned.
\<close>

datatype pyerror =
    KeyError int
  | AttributeError string
  | IndexError
  | OverflowError
  | ZeroDivisionError

subsection \<open>Integers as text\<close>

definition digit_char :: "int \<Rightarrow> char" where
  "digit_char d = ''0123456789ABCDEF'' ! nat d"

text \<open>The digits of a non-negative integer in base \<open>b\<close>, most significant first.\<close>

function digits :: "int \<Rightarrow> int \<Rightarrow> string" where
  "digits b n =
     (if n < b \<or> b < 2 then [digit_char n]
      else digits b (n div b) @ [digit_char (n mod b)])"
  by pat_completeness auto
termination
  by (relation "measure (\<lambda>(b, n). nat n)") (auto simp: not_less intro!: int_div_less_self)

declare digits.simps [simp del]

text \<open>
  \<open>'{:0wd}'.format(n)\<close> and \<open>'{:0wX}'.format(n)\<close>: the sign, then zeros, then the
  digits, at least \<open>w\<close> characters in all.  Width 0 is plain \<open>str(n)\<close>.
\<close>

definition format_int :: "int \<Rightarrow> nat \<Rightarrow> int \<Rightarrow> string" where
  "format_int base width n =
     (let sgn = (if n < 0 then ''-'' else '''');
          ds = digits base \<bar>n\<bar>
      in sgn @ replicate (width - length sgn - length ds) CHR ''0'' @ ds)"

definition str_int :: "int \<Rightarrow> string" where
  "str_int n = format_int 10 0 n"

definition format_02d :: "int \<Rightarrow> string" where
  "format_02d n = format_int 10 2 n"

definition format_02X :: "int \<Rightarrow> string" where
  "format_02X n = format_int 16 2 n"

subsection \<open>Binary64 floating point\<close>

text \<open>
  A Python float by its value.  The sign of zero is not kept: the only zeros that the
  timestamp computes are \<open>0 / 1000000.0\<close> and exact cancellations of a sum, both \<open>+0.0\<close>.
\<close>

datatype pyfloat = Finite rat | PosInf | NegInf | NaN

definition round_half_even :: "rat \<Rightarrow> int" where
  "round_half_even q =
     (let f = \<lfloor>q\<rfloor>; r = q - of_int f
      in if r < 1 / 2 then f
         else if 1 / 2 < r then f + 1
         else if even f then f else f + 1)"

definition pow2 :: "int \<Rightarrow> rat" where
  "pow2 k = (if 0 \<le> k then 2 ^ nat k else 1 / 2 ^ nat (- k))"

text \<open>\<open>ilog2 a\<close> is the exponent of the binade of \<open>a > 0\<close>: \<open>2 ^ e \<le> a < 2 ^ (e + 1)\<close>.\<close>

definition ilog2 :: "rat \<Rightarrow> int" where
  "ilog2 a =
     (let (n, d) = quotient_of a; k = bitlen n - bitlen d
      in if pow2 k \<le> a then k else k - 1)"

text \<open>
  IEEE 754 round-to-nearest, ties to even, to binary64: 53 significant bits, least
  exponent \<open>- 1074\<close>, overflow to infinity from \<open>2 ^ 1024\<close> on.
\<close>

definition round_to_double :: "rat \<Rightarrow> pyfloat" where
  "round_to_double q =
     (if q = 0 then Finite 0
      else
        let a = \<bar>q\<bar>;
            ulp = pow2 (max (ilog2 a - 52) (- 1074));
            r = of_int (round_half_even (a / ulp)) * ulp
        in if pow2 1024 \<le> r then (if q < 0 then NegInf else PosInf)
           else Finite (if q < 0 then - r else r))"

text \<open>The conversion of an int operand of a float operation: too large an int raises.\<close>

definition float_of_int :: "int \<Rightarrow> pyerror + pyfloat" where
  "float_of_int i =
     (case round_to_double (of_int i) of
        Finite q \<Rightarrow> Inr (Finite q)
      | _ \<Rightarrow> Inl OverflowError)"

definition float_truediv :: "pyfloat \<Rightarrow> pyfloat \<Rightarrow> pyerror + pyfloat" where
  "float_truediv x y =
     (if y = Finite 0 then Inl ZeroDivisionError
      else case (x, y) of
        (Finite a, Finite b) \<Rightarrow> Inr (round_to_double (a / b))
      | (Finite a, PosInf) \<Rightarrow> Inr (Finite 0)
      | (Finite a, NegInf) \<Rightarrow> Inr (Finite 0)
      | (PosInf, Finite b) \<Rightarrow> Inr (if 0 < b then PosInf else NegInf)
      | (NegInf, Finite b) \<Rightarrow> Inr (if 0 < b then NegInf else PosInf)
      | _ \<Rightarrow> Inr NaN)"

definition float_add :: "pyfloat \<Rightarrow> pyfloat \<Rightarrow> pyfloat" where
  "float_add x y =
     (case (x, y) of
        (Finite a, Finite b) \<Rightarrow> round_to_double (a + b)
      | (NaN, _) \<Rightarrow> NaN
      | (_, NaN) \<Rightarrow> NaN
      | (PosInf, NegInf) \<Rightarrow> NaN
      | (NegInf, PosInf) \<Rightarrow> NaN
      | (PosInf, _) \<Rightarrow> PosInf
      | (_, PosInf) \<Rightarrow> PosInf
      | (NegInf, _) \<Rightarrow> NegInf
      | (_, NegInf) \<Rightarrow> NegInf)"

text \<open>
  \<open>'{:f}'.format(x)\<close>: fixed point with the default precision of six digits,
  correctly rounded (ties to even) from the exact value of the float.
\<close>

definition format_fixed :: "nat \<Rightarrow> pyfloat \<Rightarrow> string" where
  "format_fixed prec x =
     (case x of
        Finite q \<Rightarrow>
          (let n = round_half_even (\<bar>q\<bar> * 10 ^ prec)
           in (if q < 0 then ''-'' else '''')
              @ str_int (n div 10 ^ prec)
              @ (if prec = 0 then '''' else ''.'' @ format_int 10 prec (n mod 10 ^ prec)))
      | PosInf \<Rightarrow> ''inf''
      | NegInf \<Rightarrow> ''-inf''
      | NaN \<Rightarrow> ''nan'')"

definition format_f :: "pyfloat \<Rightarrow> string" where
  "format_f x = format_fixed 6 x"

subsection \<open>Strings as text\<close>

text \<open>
  \<open>repr\<close> of a string whose characters are the code points 0 to 255: quoted with
  \<open>'\<close>, or with \<open>"\<close> when it holds a \<open>'\<close> and no \<open>"\<close>; the quote, the backslash and
  the unprintable characters escaped.
\<close>

definition hex_low :: "int \<Rightarrow> char" where
  "hex_low d = ''0123456789abcdef'' ! nat d"

definition repr_char :: "char \<Rightarrow> char \<Rightarrow> string" where
  "repr_char quote c =
     (let n = int (of_char c :: nat)
      in if c = quote \<or> c = CHR 0x5C then [CHR 0x5C, c]
         else if n = 9 then [CHR 0x5C, CHR ''t'']
         else if n = 10 then [CHR 0x5C, CHR ''n'']
         else if n = 13 then [CHR 0x5C, CHR ''r'']
         else if n < 32 \<or> (127 \<le> n \<and> n \<le> 160) \<or> n = 173
           then [CHR 0x5C, CHR ''x'', hex_low (n div 16), hex_low (n mod 16)]
         else [c])"

definition repr_str :: "string \<Rightarrow> string" where
  "repr_str s =
     (let quote = (if CHR 0x27 \<in> set s \<and> CHR 0x22 \<notin> set s then CHR 0x22 else CHR 0x27)
      in [quote] @ concat (map (repr_char quote) s) @ [quote])"

fun join :: "string \<Rightarrow> string list \<Rightarrow> string" where
  "join sep [] = []"
| "join sep [x] = x"
| "join sep (x # y # ys) = x @ sep @ join sep (y # ys)"

definition str_list :: "string list \<Rightarrow> string" where
  "str_list xs = ''['' @ join '', '' (map repr_str xs) @ '']''"

text \<open>\<open>t[i]\<close> on a tuple: a negative index counts from the end.\<close>

definition tuple_getitem :: "'a list \<Rightarrow> int \<Rightarrow> pyerror + 'a" where
  "tuple_getitem t i =
     (let n = int (length t); j = (if i < 0 then i + n else i)
      in if 0 \<le> j \<and> j < n then Inr (t ! nat j) else Inl IndexError)"

section \<open>evdev.ecodes\<close>

text \<open>
  Modelled from the spec: the module \<open>evdev.ecodes\<close>, from which events.py imports the
  name tables \<open>keys\<close>, \<open>REL\<close>, \<open>ABS\<close>, \<open>SYN\<close> and the event types \<open>EV_KEY\<close>,
  \<open>EV_REL\<close>, \<open>EV_ABS\<close>, \<open>EV_SYN\<close>, is not among the sources.  A name table maps a
  code to a name; for the key category the mapping may be one-to-many, a code with
  several aliases.  An entry of a table is therefore a single name or the aliases of the
  code in the order of their registration.  The tables and the event types are
  parameters of everything below.
\<close>

datatype name_entry = Name string | Aliases "string list"

record ecodes =
  keys :: "int \<rightharpoonup> name_entry"
  REL :: "int \<rightharpoonup> name_entry"
  ABS :: "int \<rightharpoonup> name_entry"
  SYN :: "int \<rightharpoonup> name_entry"
  EV_KEY :: int
  EV_REL :: int
  EV_ABS :: int
  EV_SYN :: int

text \<open>\<open>'{}'.format(keycode)\<close>: a string is itself, a list is rendered by \<open>str\<close>.\<close>

fun str_entry :: "name_entry \<Rightarrow> string" where
  "str_entry (Name s) = s"
| "str_entry (Aliases xs) = str_list xs"

section \<open>class InputEvent\<close>

text \<open>The attribute \<open>value\<close> is written \<open>val\<close>.\<close>

record InputEvent =
  sec :: int
  usec :: int
  type :: int
  code :: int
  val :: int

text \<open>\<open>self.sec + (self.usec / 1000000.0)\<close>\<close>

definition timestamp :: "InputEvent \<Rightarrow> pyerror + pyfloat" where
  "timestamp self =
     (case float_of_int (usec self) of
        Inl e \<Rightarrow> Inl e
      | Inr u \<Rightarrow>
          (case float_truediv u (Finite 1000000) of
             Inl e \<Rightarrow> Inl e
           | Inr q \<Rightarrow>
               (case float_of_int (sec self) of
                  Inl e \<Rightarrow> Inl e
                | Inr s \<Rightarrow> Inr (float_add s q))))"

text \<open>\<open>'event at {:f}, code {:02d}, type {:02d}, val {:02d}'\<close>\<close>

definition InputEvent_str :: "InputEvent \<Rightarrow> pyerror + string" where
  "InputEvent_str s =
     (case timestamp s of
        Inl e \<Rightarrow> Inl e
      | Inr ts \<Rightarrow>
          Inr (''event at '' @ format_f ts @ '', code '' @ format_02d (code s)
               @ '', type '' @ format_02d (type s) @ '', val '' @ format_02d (val s)))"

text \<open>
  A parameter with a default value: \<open>None\<close> is a call that leaves the argument out.
\<close>

definition arg_or_default :: "'a option \<Rightarrow> 'a \<Rightarrow> 'a" where
  "arg_or_default arg dflt = (case arg of None \<Rightarrow> dflt | Some a \<Rightarrow> a)"

section \<open>class KeyEvent\<close>

definition key_up :: int where "key_up = 0x0"
definition key_down :: int where "key_down = 0x1"
definition key_hold :: int where "key_hold = 0x2"

text \<open>
  A slot that was never assigned is \<open>None\<close>; only \<open>keystate\<close> can be left so.
  The parameter \<open>event\<close> of the constructors is written \<open>ev\<close>, the slot keeps its name.
\<close>

record KeyEvent =
  scancode :: int
  keycode :: name_entry
  keystate :: "int option"
  event :: InputEvent

definition KeyEvent_init :: "ecodes \<Rightarrow> InputEvent \<Rightarrow> bool option \<Rightarrow> pyerror + KeyEvent" where
  "KeyEvent_init ec ev allow_unknown_arg =
     (let allow_unknown = arg_or_default allow_unknown_arg False;
          scancode' = code ev;
          keystate' =
            (if val ev = 0 then Some key_up
             else if val ev = 2 then Some key_hold
             else if val ev = 1 then Some key_down
             else None)
      in case keys ec (code ev) of
           Some name \<Rightarrow>
             Inr \<lparr>scancode = scancode', KeyEvent.keycode = name,
                  keystate = keystate', KeyEvent.event = ev\<rparr>
         | None \<Rightarrow>
             if allow_unknown
             then Inr \<lparr>scancode = scancode',
                       KeyEvent.keycode = Name (''0x'' @ format_02X (code ev)),
                       keystate = keystate', KeyEvent.event = ev\<rparr>
             else Inl (KeyError (code ev)))"

text \<open>Reading \<open>self.keystate\<close>.\<close>

definition get_keystate :: "KeyEvent \<Rightarrow> pyerror + int" where
  "get_keystate self =
     (case keystate self of
        None \<Rightarrow> Inl (AttributeError ''keystate'')
      | Some st \<Rightarrow> Inr st)"

text \<open>
  \<open>try: ks = ('up', 'down', 'hold')[self.keystate]\<close> \<open>except IndexError: ks = 'unknown'\<close>:
  the handler takes an \<open>IndexError\<close> and lets every other exception through.
\<close>

definition KeyEvent_ks :: "KeyEvent \<Rightarrow> pyerror + string" where
  "KeyEvent_ks self =
     (case (case get_keystate self of
              Inl e \<Rightarrow> Inl e
            | Inr st \<Rightarrow> tuple_getitem [''up'', ''down'', ''hold''] st) of
        Inr ks \<Rightarrow> Inr ks
      | Inl IndexError \<Rightarrow> Inr ''unknown''
      | Inl e \<Rightarrow> Inl e)"

text \<open>\<open>'key event at {:f}, {} ({}), {}'\<close>\<close>

definition KeyEvent_str :: "KeyEvent \<Rightarrow> pyerror + string" where
  "KeyEvent_str self =
     (case KeyEvent_ks self of
        Inl e \<Rightarrow> Inl e
      | Inr ks \<Rightarrow>
          (case timestamp (KeyEvent.event self) of
             Inl e \<Rightarrow> Inl e
           | Inr ts \<Rightarrow>
               Inr (''key event at '' @ format_f ts @ '', '' @ str_int (scancode self)
                    @ '' ('' @ str_entry (KeyEvent.keycode self) @ ''), '' @ ks)))"

section \<open>class RelEvent\<close>

record RelEvent =
  event :: InputEvent
  keycode :: name_entry

definition RelEvent_init :: "ecodes \<Rightarrow> InputEvent \<Rightarrow> bool option \<Rightarrow> pyerror + RelEvent" where
  "RelEvent_init ec ev allow_unknown_arg =
     (let allow_unknown = arg_or_default allow_unknown_arg False
      in case REL ec (code ev) of
           Some name \<Rightarrow> Inr \<lparr>RelEvent.event = ev, RelEvent.keycode = name\<rparr>
         | None \<Rightarrow>
             if allow_unknown
             then Inr \<lparr>RelEvent.event = ev,
                       RelEvent.keycode = Name (''0x'' @ format_02X (code ev))\<rparr>
             else Inl (KeyError (code ev)))"

text \<open>\<open>'relative axis event at {:f}, {} {} '\<close>\<close>

definition RelEvent_str :: "RelEvent \<Rightarrow> pyerror + string" where
  "RelEvent_str self =
     (case timestamp (RelEvent.event self) of
        Inl e \<Rightarrow> Inl e
      | Inr ts \<Rightarrow>
          Inr (''relative axis event at '' @ format_f ts @ '', ''
               @ str_entry (RelEvent.keycode self) @ '' ''
               @ str_int (val (RelEvent.event self)) @ '' ''))"

section \<open>class AbsEvent\<close>

record AbsEvent =
  event :: InputEvent
  keycode :: name_entry

definition AbsEvent_init :: "ecodes \<Rightarrow> InputEvent \<Rightarrow> bool option \<Rightarrow> pyerror + AbsEvent" where
  "AbsEvent_init ec ev allow_unknown_arg =
     (let allow_unknown = arg_or_default allow_unknown_arg False
      in case ABS ec (code ev) of
           Some name \<Rightarrow> Inr \<lparr>AbsEvent.event = ev, AbsEvent.keycode = name\<rparr>
         | None \<Rightarrow>
             if allow_unknown
             then Inr \<lparr>AbsEvent.event = ev,
                       AbsEvent.keycode = Name (''0x'' @ format_02X (code ev))\<rparr>
             else Inl (KeyError (code ev)))"

text \<open>\<open>'absolute axis event at {:f}, {} {} '\<close>\<close>

definition AbsEvent_str :: "AbsEvent \<Rightarrow> pyerror + string" where
  "AbsEvent_str self =
     (case timestamp (AbsEvent.event self) of
        Inl e \<Rightarrow> Inl e
      | Inr ts \<Rightarrow>
          Inr (''absolute axis event at '' @ format_f ts @ '', ''
               @ str_entry (AbsEvent.keycode self) @ '' ''
               @ str_int (val (AbsEvent.event self)) @ '' ''))"

section \<open>class SynEvent\<close>

record SynEvent =
  event :: InputEvent
  keycode :: name_entry

definition SynEvent_init :: "ecodes \<Rightarrow> InputEvent \<Rightarrow> bool option \<Rightarrow> pyerror + SynEvent" where
  "SynEvent_init ec ev allow_unknown_arg =
     (let allow_unknown = arg_or_default allow_unknown_arg True
      in case SYN ec (code ev) of
           Some name \<Rightarrow> Inr \<lparr>SynEvent.event = ev, SynEvent.keycode = name\<rparr>
         | None \<Rightarrow>
             if allow_unknown
             then Inr \<lparr>SynEvent.event = ev,
                       SynEvent.keycode = Name (''0x'' @ format_02X (code ev))\<rparr>
             else Inl (KeyError (code ev)))"

text \<open>\<open>'synchronization event at {:f}, {} '\<close>\<close>

definition SynEvent_str :: "SynEvent \<Rightarrow> pyerror + string" where
  "SynEvent_str self =
     (case timestamp (SynEvent.event self) of
        Inl e \<Rightarrow> Inl e
      | Inr ts \<Rightarrow>
          Inr (''synchronization event at '' @ format_f ts @ '', ''
               @ str_entry (SynEvent.keycode self) @ '' ''))"

section \<open>event_factory and categorize\<close>

datatype event_class = KeyEvent_class | RelEvent_class | AbsEvent_class | SynEvent_class

text \<open>The dictionary display: a key written twice keeps its last value.\<close>

definition event_factory :: "ecodes \<Rightarrow> (int \<rightharpoonup> event_class)" where
  "event_factory ec =
     [EV_KEY ec \<mapsto> KeyEvent_class,
      EV_REL ec \<mapsto> RelEvent_class,
      EV_ABS ec \<mapsto> AbsEvent_class,
      EV_SYN ec \<mapsto> SynEvent_class]"

text \<open>What \<open>categorize\<close> returns: an instance of one of the four classes, or the event.\<close>

datatype categorized =
    Key KeyEvent
  | Rel RelEvent
  | Abs AbsEvent
  | Syn SynEvent
  | Raw InputEvent

text \<open>Calling a class of the table: \<open>cls(event)\<close> or \<open>cls(event, allow_unknown)\<close>.\<close>

fun construct :: "ecodes \<Rightarrow> event_class \<Rightarrow> InputEvent \<Rightarrow> bool option \<Rightarrow> pyerror + categorized" where
  "construct ec KeyEvent_class ev au = map_sum id Key (KeyEvent_init ec ev au)"
| "construct ec RelEvent_class ev au = map_sum id Rel (RelEvent_init ec ev au)"
| "construct ec AbsEvent_class ev au = map_sum id Abs (AbsEvent_init ec ev au)"
| "construct ec SynEvent_class ev au = map_sum id Syn (SynEvent_init ec ev au)"

text \<open>
  Modelled from the spec: \<open>evdev.util.categorize\<close>, the consumer of \<open>event_factory\<close>, is
  not among the sources.  Given an event it looks up the type of the event in the
  dispatch table; if found, it invokes the classifier with the event and the
  classifier's own default for \<open>allow_unknown\<close>; if not found, it returns the event
  unchanged.
\<close>

definition categorize :: "ecodes \<Rightarrow> InputEvent \<Rightarrow> pyerror + categorized" where
  "categorize ec ev =
     (case event_factory ec (type ev) of
        Some cls \<Rightarrow> construct ec cls ev None
      | None \<Rightarrow> Inr (Raw ev))"

section \<open>Example tables and events\<close>

text \<open>
  A small instance of the tables, with the event types of \<open>linux/input.h\<close>, one key
  code with a single name and one with two aliases.
\<close>

definition demo_ecodes :: ecodes where
  "demo_ecodes =
     \<lparr>keys = [28 \<mapsto> Name ''KEY_ENTER'',
              113 \<mapsto> Aliases [''KEY_MIN_INTERESTING'', ''KEY_MUTE'']],
      REL = [0 \<mapsto> Name ''REL_X''],
      ABS = [0 \<mapsto> Name ''ABS_X''],
      SYN = [0 \<mapsto> Name ''SYN_REPORT''],
      EV_KEY = 1, EV_REL = 2, EV_ABS = 3, EV_SYN = 0\<rparr>"

definition demo_event :: "int \<Rightarrow> int \<Rightarrow> int \<Rightarrow> InputEvent" where
  "demo_event t c v = \<lparr>sec = 1337197425, usec = 477835, type = t, code = c, val = v\<rparr>"

section \<open>Reading a hexadecimal numeral\<close>

text \<open>
  The number that a string of upper-case hexadecimal digits denotes, to state what the
  fallback name of an unknown code is.
\<close>

fun index_of :: "'a list \<Rightarrow> 'a \<Rightarrow> nat" where
  "index_of [] y = 0"
| "index_of (x # xs) y = (if x = y then 0 else Suc (index_of xs y))"

definition hex_digit_value :: "char \<Rightarrow> int" where
  "hex_digit_value c = int (index_of ''0123456789ABCDEF'' c)"

definition hex_value :: "string \<Rightarrow> int" where
  "hex_value s = foldl (\<lambda>a c. 16 * a + hex_digit_value c) 0 s"

definition is_upper_hex :: "string \<Rightarrow> bool" where
  "is_upper_hex s = list_all (\<lambda>c. c \<in> set ''0123456789ABCDEF'') s"

section \<open>Notions for the statements about floats\<close>

text \<open>The unit in the last place that \<open>round_to_double\<close> rounds a positive value to.\<close>

definition ulp_of :: "rat \<Rightarrow> rat" where
  "ulp_of a = pow2 (max (ilog2 a - 52) (- 1074))"

text \<open>The rounded magnitude, before the overflow test and the sign.\<close>

definition rounded_abs :: "rat \<Rightarrow> rat" where
  "rounded_abs a = of_int (round_half_even (a / ulp_of a)) * ulp_of a"

text \<open>A value is representable when rounding leaves it as it is.\<close>

definition representable :: "rat \<Rightarrow> bool" where
  "representable q = (round_to_double q = Finite q)"

text \<open>The timestamp as a rational number, without rounding.\<close>

definition exact_timestamp :: "InputEvent \<Rightarrow> rat" where
  "exact_timestamp ev = of_int (sec ev) + of_int (usec ev) / 1000000"

section \<open>The constructors, case by case\<close>

definition keystate_of_value :: "int \<Rightarrow> int option" where
  "keystate_of_value v =
     (if v = 0 then Some 0 else if v = 1 then Some 1 else if v = 2 then Some 2 else None)"

lemma KeyEvent_init_found:
  "keys ec (code ev) = Some name \<Longrightarrow>
   KeyEvent_init ec ev au =
     Inr \<lparr>scancode = code ev, KeyEvent.keycode = name,
          keystate = keystate_of_value (val ev), KeyEvent.event = ev\<rparr>"
  by (simp add: KeyEvent_init_def Let_def keystate_of_value_def key_up_def key_down_def
      key_hold_def)

lemma KeyEvent_init_missing:
  "keys ec (code ev) = None \<Longrightarrow>
   KeyEvent_init ec ev au =
     (if arg_or_default au False
      then Inr \<lparr>scancode = code ev,
                KeyEvent.keycode = Name (''0x'' @ format_02X (code ev)),
                keystate = keystate_of_value (val ev), KeyEvent.event = ev\<rparr>
      else Inl (KeyError (code ev)))"
  by (simp add: KeyEvent_init_def Let_def keystate_of_value_def key_up_def key_down_def
      key_hold_def)

lemma RelEvent_init_found:
  "REL ec (code ev) = Some name \<Longrightarrow>
   RelEvent_init ec ev au = Inr \<lparr>RelEvent.event = ev, RelEvent.keycode = name\<rparr>"
  by (simp add: RelEvent_init_def)

lemma RelEvent_init_missing:
  "REL ec (code ev) = None \<Longrightarrow>
   RelEvent_init ec ev au =
     (if arg_or_default au False
      then Inr \<lparr>RelEvent.event = ev,
                RelEvent.keycode = Name (''0x'' @ format_02X (code ev))\<rparr>
      else Inl (KeyError (code ev)))"
  by (simp add: RelEvent_init_def)

lemma AbsEvent_init_found:
  "ABS ec (code ev) = Some name \<Longrightarrow>
   AbsEvent_init ec ev au = Inr \<lparr>AbsEvent.event = ev, AbsEvent.keycode = name\<rparr>"
  by (simp add: AbsEvent_init_def)

lemma AbsEvent_init_missing:
  "ABS ec (code ev) = None \<Longrightarrow>
   AbsEvent_init ec ev au =
     (if arg_or_default au False
      then Inr \<lparr>AbsEvent.event = ev,
                AbsEvent.keycode = Name (''0x'' @ format_02X (code ev))\<rparr>
      else Inl (KeyError (code ev)))"
  by (simp add: AbsEvent_init_def)

lemma SynEvent_init_found:
  "SYN ec (code ev) = Some name \<Longrightarrow>
   SynEvent_init ec ev au = Inr \<lparr>SynEvent.event = ev, SynEvent.keycode = name\<rparr>"
  by (simp add: SynEvent_init_def)

lemma SynEvent_init_missing:
  "SYN ec (code ev) = None \<Longrightarrow>
   SynEvent_init ec ev au =
     (if arg_or_default au True
      then Inr \<lparr>SynEvent.event = ev,
                SynEvent.keycode = Name (''0x'' @ format_02X (code ev))\<rparr>
      else Inl (KeyError (code ev)))"
  by (simp add: SynEvent_init_def)

lemma demo_keys_28: "keys demo_ecodes 28 = Some (Name ''KEY_ENTER'')"
  by (simp add: demo_ecodes_def)

lemma demo_keys_5: "keys demo_ecodes 5 = None"
  by (simp add: demo_ecodes_def)

lemma demo_event_fields [simp]:
  "sec (demo_event t c v) = 1337197425" "usec (demo_event t c v) = 477835"
  "type (demo_event t c v) = t" "code (demo_event t c v) = c" "val (demo_event t c v) = v"
  by (simp_all add: demo_event_def)

section \<open>The key state\<close>

text \<open>
  C3.  For every event whose code is in the key table, the constructor of \<open>KeyEvent\<close>
  succeeds whatever the value of the event is, and sets \<open>keystate\<close> from the value:
  0 gives \<open>key_up\<close>, 1 gives \<open>key_down\<close>, 2 gives \<open>key_hold\<close>, and every other value
  leaves \<open>keystate\<close> unassigned.
\<close>

theorem KeyEvent_keystate_of_value:
  assumes "keys ec (code ev) = Some name"
  shows "\<exists>k. KeyEvent_init ec ev au = Inr k \<and>
           (val ev = 0 \<longrightarrow> keystate k = Some key_up) \<and>
           (val ev = 1 \<longrightarrow> keystate k = Some key_down) \<and>
           (val ev = 2 \<longrightarrow> keystate k = Some key_hold) \<and>
           (val ev \<notin> {0, 1, 2} \<longrightarrow> keystate k = None)"
  using assms
  by (simp add: KeyEvent_init_found keystate_of_value_def key_up_def key_down_def key_hold_def)

theorem KeyEvent_keystate_of_value_witness:
  "keys demo_ecodes (code (demo_event 1 28 7)) = Some (Name ''KEY_ENTER'') \<and>
   (\<exists>k. KeyEvent_init demo_ecodes (demo_event 1 28 7) None = Inr k \<and> keystate k = None)"
proof -
  have h: "keys demo_ecodes (code (demo_event 1 28 7)) = Some (Name ''KEY_ENTER'')"
    by (simp add: demo_keys_28)
  have v: "val (demo_event 1 28 7) \<notin> {0, 1, 2}"
    by simp
  from KeyEvent_keystate_of_value [OF h, of None] v h show ?thesis by blast
qed

lemma KeyEvent_init_keystate:
  "KeyEvent_init ec ev au = Inr k \<Longrightarrow> keystate k = keystate_of_value (val ev)"
  by (cases "keys ec (code ev)")
     (auto simp: KeyEvent_init_found KeyEvent_init_missing split: if_splits)

lemma KeyEvent_str_unassigned:
  "keystate k = None \<Longrightarrow> KeyEvent_str k = Inl (AttributeError ''keystate'')"
  by (simp add: KeyEvent_str_def KeyEvent_ks_def get_keystate_def)

section \<open>Reading the key state\<close>

text \<open>
  C10.  In a \<open>KeyEvent\<close> that its constructor returned, an assigned \<open>keystate\<close> is the
  value of the event and one of 0 (\<open>key_up\<close>), 1 (\<open>key_down\<close>), 2 (\<open>key_hold\<close>).  For
  every other value of the event the slot is never assigned: reading it raises
  \<open>AttributeError\<close>, and so does the display method, whose handler for \<open>IndexError\<close>
  does not take that exception; no \<open>'unknown'\<close> is produced.
\<close>

theorem keystate_assigned_or_AttributeError:
  assumes "KeyEvent_init ec ev au = Inr k"
  shows "(\<forall>st. keystate k = Some st \<longrightarrow>
            st = val ev \<and> st \<in> {0, 1, 2} \<and> st \<in> {key_up, key_down, key_hold}) \<and>
         (val ev \<notin> {0, 1, 2} \<longrightarrow>
            keystate k = None \<and>
            get_keystate k = Inl (AttributeError ''keystate'') \<and>
            KeyEvent_ks k = Inl (AttributeError ''keystate'') \<and>
            KeyEvent_str k = Inl (AttributeError ''keystate''))"
proof (intro conjI allI impI)
  have ks: "keystate k = keystate_of_value (val ev)"
    using assms by (rule KeyEvent_init_keystate)
  {
    fix st
    assume "keystate k = Some st"
    then have st: "keystate_of_value (val ev) = Some st"
      by (simp add: ks)
    then show "st = val ev"
      by (simp add: keystate_of_value_def split: if_splits)
    from st show "st \<in> {0, 1, 2}"
      by (simp add: keystate_of_value_def split: if_splits)
    from st show "st \<in> {key_up, key_down, key_hold}"
      by (simp add: keystate_of_value_def key_up_def key_down_def key_hold_def
          split: if_splits)
  }
  assume "val ev \<notin> {0, 1, 2}"
  then show none: "keystate k = None"
    by (simp add: ks keystate_of_value_def)
  then show "get_keystate k = Inl (AttributeError ''keystate'')"
    by (simp add: get_keystate_def)
  from none show "KeyEvent_ks k = Inl (AttributeError ''keystate'')"
    by (simp add: KeyEvent_ks_def get_keystate_def)
  from none show "KeyEvent_str k = Inl (AttributeError ''keystate'')"
    by (rule KeyEvent_str_unassigned)
qed

theorem keystate_assigned_or_AttributeError_witness:
  "KeyEvent_init demo_ecodes (demo_event 1 28 (- 1)) (Some True) =
     Inr \<lparr>scancode = 28, KeyEvent.keycode = Name ''KEY_ENTER'', keystate = None,
          KeyEvent.event = demo_event 1 28 (- 1)\<rparr> \<and>
   KeyEvent_str \<lparr>scancode = 28, KeyEvent.keycode = Name ''KEY_ENTER'', keystate = None,
          KeyEvent.event = demo_event 1 28 (- 1)\<rparr> = Inl (AttributeError ''keystate'')"
proof -
  have c: "KeyEvent_init demo_ecodes (demo_event 1 28 (- 1)) (Some True) =
     Inr \<lparr>scancode = 28, KeyEvent.keycode = Name ''KEY_ENTER'', keystate = None,
          KeyEvent.event = demo_event 1 28 (- 1)\<rparr>"
    by (simp add: KeyEvent_init_found demo_keys_28 keystate_of_value_def)
  have v: "val (demo_event 1 28 (- 1)) \<notin> {0, 1, 2}"
    by simp
  from keystate_assigned_or_AttributeError [OF c] v c show ?thesis by blast
qed

section \<open>The default of allow_unknown\<close>

text \<open>
  C6.  A call that leaves \<open>allow_unknown\<close> out behaves as one that passes \<open>False\<close> for
  \<open>KeyEvent\<close>, \<open>RelEvent\<close> and \<open>AbsEvent\<close>, and as one that passes \<open>True\<close> for
  \<open>SynEvent\<close>.
\<close>

theorem allow_unknown_defaults:
  "KeyEvent_init ec ev None = KeyEvent_init ec ev (Some False) \<and>
   RelEvent_init ec ev None = RelEvent_init ec ev (Some False) \<and>
   AbsEvent_init ec ev None = AbsEvent_init ec ev (Some False) \<and>
   SynEvent_init ec ev None = SynEvent_init ec ev (Some True)"
  by (simp add: KeyEvent_init_def RelEvent_init_def AbsEvent_init_def SynEvent_init_def
      arg_or_default_def)

theorem allow_unknown_defaults_witness:
  "KeyEvent_init demo_ecodes (demo_event 1 5 0) None = Inl (KeyError 5) \<and>
   RelEvent_init demo_ecodes (demo_event 2 5 0) None = Inl (KeyError 5) \<and>
   AbsEvent_init demo_ecodes (demo_event 3 5 0) None = Inl (KeyError 5) \<and>
   SynEvent_init demo_ecodes (demo_event 0 5 0) None \<noteq> Inl (KeyError 5)"
  using allow_unknown_defaults [of demo_ecodes "demo_event 1 5 0"]
    allow_unknown_defaults [of demo_ecodes "demo_event 2 5 0"]
    allow_unknown_defaults [of demo_ecodes "demo_event 3 5 0"]
    allow_unknown_defaults [of demo_ecodes "demo_event 0 5 0"]
  by (simp add: KeyEvent_init_missing RelEvent_init_missing AbsEvent_init_missing
      SynEvent_init_missing demo_ecodes_def arg_or_default_def)

lemma KeyEvent_init_fails_iff:
  "KeyEvent_init ec ev au = Inl e \<longleftrightarrow>
     keys ec (code ev) = None \<and> \<not> arg_or_default au False \<and> e = KeyError (code ev)"
  by (cases "keys ec (code ev)") (auto simp: KeyEvent_init_found KeyEvent_init_missing)

lemma RelEvent_init_fails_iff:
  "RelEvent_init ec ev au = Inl e \<longleftrightarrow>
     REL ec (code ev) = None \<and> \<not> arg_or_default au False \<and> e = KeyError (code ev)"
  by (cases "REL ec (code ev)") (auto simp: RelEvent_init_found RelEvent_init_missing)

lemma AbsEvent_init_fails_iff:
  "AbsEvent_init ec ev au = Inl e \<longleftrightarrow>
     ABS ec (code ev) = None \<and> \<not> arg_or_default au False \<and> e = KeyError (code ev)"
  by (cases "ABS ec (code ev)") (auto simp: AbsEvent_init_found AbsEvent_init_missing)

lemma SynEvent_init_fails_iff:
  "SynEvent_init ec ev au = Inl e \<longleftrightarrow>
     SYN ec (code ev) = None \<and> \<not> arg_or_default au True \<and> e = KeyError (code ev)"
  by (cases "SYN ec (code ev)") (auto simp: SynEvent_init_found SynEvent_init_missing)

section \<open>Failure of the constructors\<close>

text \<open>
  C2, as amended.  For each of the four classes, the constructor raises if and only if
  the code of the event is not in the table of the class and \<open>allow_unknown\<close> is false;
  what it raises is then the \<open>KeyError\<close> of the lookup, whose argument is the code, and
  nothing else is ever raised.  The exception does not name the category.
\<close>

theorem construction_fails_iff_KeyError:
  "(KeyEvent_init ec ev au = Inl e \<longleftrightarrow>
      keys ec (code ev) = None \<and> \<not> arg_or_default au False \<and> e = KeyError (code ev)) \<and>
   (RelEvent_init ec ev au = Inl e \<longleftrightarrow>
      REL ec (code ev) = None \<and> \<not> arg_or_default au False \<and> e = KeyError (code ev)) \<and>
   (AbsEvent_init ec ev au = Inl e \<longleftrightarrow>
      ABS ec (code ev) = None \<and> \<not> arg_or_default au False \<and> e = KeyError (code ev)) \<and>
   (SynEvent_init ec ev au = Inl e \<longleftrightarrow>
      SYN ec (code ev) = None \<and> \<not> arg_or_default au True \<and> e = KeyError (code ev))"
  by (simp only: KeyEvent_init_fails_iff RelEvent_init_fails_iff AbsEvent_init_fails_iff
      SynEvent_init_fails_iff simp_thms)

theorem construction_fails_iff_KeyError_witness:
  "KeyEvent_init demo_ecodes (demo_event 1 5 0) (Some False) = Inl (KeyError 5) \<and>
   SynEvent_init demo_ecodes (demo_event 0 5 0) (Some False) = Inl (KeyError 5)"
  using construction_fails_iff_KeyError
      [of demo_ecodes "demo_event 1 5 0" "Some False" "KeyError 5"]
    construction_fails_iff_KeyError
      [of demo_ecodes "demo_event 0 5 0" "Some False" "KeyError 5"]
  by (simp add: demo_ecodes_def arg_or_default_def)

text \<open>
  C2, as stated, fails: the failure does not carry the category.  The constructors of
  two different classes raise the very same exception for the same code.
\<close>

theorem KeyError_without_category:
  "construct demo_ecodes KeyEvent_class (demo_event 1 5 0) None = Inl (KeyError 5) \<and>
   construct demo_ecodes RelEvent_class (demo_event 1 5 0) None = Inl (KeyError 5) \<and>
   KeyEvent_class \<noteq> RelEvent_class"
  by (simp add: KeyEvent_init_missing RelEvent_init_missing demo_ecodes_def arg_or_default_def)

section \<open>The hexadecimal fallback\<close>

lemma small_int_cases:
  assumes "0 \<le> d" "d < (16::int)"
  shows "d = 0 \<or> d = 1 \<or> d = 2 \<or> d = 3 \<or> d = 4 \<or> d = 5 \<or> d = 6 \<or> d = 7 \<or>
         d = 8 \<or> d = 9 \<or> d = 10 \<or> d = 11 \<or> d = 12 \<or> d = 13 \<or> d = 14 \<or> d = 15"
  using assms by presburger

lemma hex_digit_value_digit_char:
  assumes "0 \<le> d" "d < 16"
  shows "hex_digit_value (digit_char d) = d"
  using small_int_cases [OF assms]
  by (elim disjE) (simp_all add: hex_digit_value_def digit_char_def)

lemma digit_char_upper_hex:
  assumes "0 \<le> d" "d < 16"
  shows "is_upper_hex [digit_char d]"
  using small_int_cases [OF assms]
  by (elim disjE) (simp_all add: digit_char_def is_upper_hex_def)

lemma digit_char_zero_iff:
  assumes "0 \<le> d" "d < 16"
  shows "digit_char d = CHR ''0'' \<longleftrightarrow> d = 0"
  using small_int_cases [OF assms]
  by (elim disjE) (simp_all add: digit_char_def)

lemma hex_value_snoc: "hex_value (s @ [c]) = 16 * hex_value s + hex_digit_value c"
  by (simp add: hex_value_def)

lemma is_upper_hex_append: "is_upper_hex (s @ t) \<longleftrightarrow> is_upper_hex s \<and> is_upper_hex t"
  by (simp add: is_upper_hex_def)

lemma is_upper_hex_zeros: "is_upper_hex (replicate k CHR ''0'')"
  by (induction k) (simp_all add: is_upper_hex_def)

lemma digits_nonempty: "digits b n \<noteq> []"
  by (subst digits.simps) simp

lemma digits_16_small: "n < 16 \<Longrightarrow> digits 16 n = [digit_char n]"
  by (subst digits.simps) simp

lemma digits_16_large:
  "\<not> n < 16 \<Longrightarrow> digits 16 n = digits 16 (n div 16) @ [digit_char (n mod 16)]"
  by (subst digits.simps) simp

lemma hex_value_digits_aux: "b = 16 \<Longrightarrow> 0 \<le> n \<Longrightarrow> hex_value (digits b n) = n"
proof (induction b n rule: digits.induct)
  case (1 b n)
  show ?case
  proof (cases "n < 16")
    case True
    with "1.prems" show ?thesis
      by (simp add: digits_16_small hex_value_def hex_digit_value_digit_char)
  next
    case False
    with "1.IH" "1.prems" have ih: "hex_value (digits 16 (n div 16)) = n div 16"
      by simp
    have "hex_digit_value (digit_char (n mod 16)) = n mod 16"
      by (rule hex_digit_value_digit_char) simp_all
    with False ih "1.prems" show ?thesis
      by (simp add: digits_16_large hex_value_snoc)
  qed
qed

lemma is_upper_hex_digits_aux: "b = 16 \<Longrightarrow> 0 \<le> n \<Longrightarrow> is_upper_hex (digits b n)"
proof (induction b n rule: digits.induct)
  case (1 b n)
  show ?case
  proof (cases "n < 16")
    case True
    with "1.prems" show ?thesis
      by (simp add: digits_16_small digit_char_upper_hex)
  next
    case False
    with "1.IH" "1.prems" have ih: "is_upper_hex (digits 16 (n div 16))"
      by simp
    have "is_upper_hex [digit_char (n mod 16)]"
      by (rule digit_char_upper_hex) simp_all
    with False ih "1.prems" show ?thesis
      by (simp add: digits_16_large is_upper_hex_append)
  qed
qed

lemma hd_digits_nonzero_aux: "b = 16 \<Longrightarrow> 0 < n \<Longrightarrow> hd (digits b n) \<noteq> CHR ''0''"
proof (induction b n rule: digits.induct)
  case (1 b n)
  show ?case
  proof (cases "n < 16")
    case True
    with "1.prems" show ?thesis
      by (simp add: digits_16_small digit_char_zero_iff)
  next
    case False
    then have "0 < n div 16"
      by (simp add: pos_imp_zdiv_pos_iff)
    with False "1.IH" "1.prems" have ih: "hd (digits 16 (n div 16)) \<noteq> CHR ''0''"
      by simp
    with False "1.prems" show ?thesis
      by (simp add: digits_16_large digits_nonempty)
  qed
qed

lemma hex_value_zeros: "hex_value (replicate k CHR ''0'' @ s) = hex_value s"
proof -
  have "foldl (\<lambda>a c. 16 * a + hex_digit_value c) 0 (replicate k CHR ''0'') = 0"
    by (induction k) (simp_all add: hex_digit_value_def)
  then show ?thesis
    by (simp add: hex_value_def)
qed

lemma format_02X_nonneg:
  "0 \<le> n \<Longrightarrow> format_02X n = replicate (2 - length (digits 16 n)) CHR ''0'' @ digits 16 n"
  by (simp add: format_02X_def format_int_def Let_def)

lemma format_02X_hex:
  assumes "0 \<le> n"
  shows "hex_value (format_02X n) = n \<and> is_upper_hex (format_02X n) \<and>
         2 \<le> length (format_02X n) \<and>
         (length (format_02X n) = 2 \<or> hd (format_02X n) \<noteq> CHR ''0'')"
proof (intro conjI)
  note f = format_02X_nonneg [OF assms]
  show "hex_value (format_02X n) = n"
    unfolding f by (simp only: hex_value_zeros hex_value_digits_aux [OF refl assms])
  show "is_upper_hex (format_02X n)"
    unfolding f
    by (simp only: is_upper_hex_append is_upper_hex_zeros
        is_upper_hex_digits_aux [OF refl assms] simp_thms)
  show "2 \<le> length (format_02X n)"
    unfolding f by simp
  show "length (format_02X n) = 2 \<or> hd (format_02X n) \<noteq> CHR ''0''"
  proof (cases "length (digits 16 n) \<le> 2")
    case True
    then show ?thesis unfolding f by simp
  next
    case False
    then have len: "2 - length (digits 16 n) = 0" by simp
    have "n \<noteq> 0"
    proof
      assume "n = 0"
      then have "length (digits 16 n) = 1" by (simp add: digits_16_small)
      with False show False by simp
    qed
    with assms have "0 < n" by simp
    then have "hd (digits 16 n) \<noteq> CHR ''0''"
      by (rule hd_digits_nonzero_aux [OF refl])
    then show ?thesis unfolding f len by simp
  qed
qed

lemma demo_keys_113:
  "keys demo_ecodes 113 = Some (Aliases [''KEY_MIN_INTERESTING'', ''KEY_MUTE''])"
  by (simp add: demo_ecodes_def)

lemma format_02X_255: "format_02X 255 = ''FF''"
  by code_simp

text \<open>
  C1, as amended.  For each of the four classes and every event: if the code of the
  event is in the table of the class, the constructor succeeds and \<open>keycode\<close> is the
  entry of the table as it is (for a key code with several aliases, all of them, in the
  order of the table); if the code is not in the table and \<open>allow_unknown\<close> is true, the
  constructor succeeds and \<open>keycode\<close> is \<open>0x\<close> followed by \<open>'{:02X}'.format(code)\<close>.
  For a code that is not negative, that text consists of upper-case hexadecimal digits,
  denotes the code, has at least two characters, and has no leading zero beyond them.
\<close>

theorem keycode_is_table_entry_or_hex:
  "(keys ec (code ev) = Some entry \<longrightarrow>
      (\<exists>k. KeyEvent_init ec ev au = Inr k \<and> KeyEvent.keycode k = entry)) \<and>
   (REL ec (code ev) = Some entry \<longrightarrow>
      (\<exists>r. RelEvent_init ec ev au = Inr r \<and> RelEvent.keycode r = entry)) \<and>
   (ABS ec (code ev) = Some entry \<longrightarrow>
      (\<exists>a. AbsEvent_init ec ev au = Inr a \<and> AbsEvent.keycode a = entry)) \<and>
   (SYN ec (code ev) = Some entry \<longrightarrow>
      (\<exists>s. SynEvent_init ec ev au = Inr s \<and> SynEvent.keycode s = entry)) \<and>
   (keys ec (code ev) = None \<longrightarrow>
      (\<exists>k. KeyEvent_init ec ev (Some True) = Inr k \<and>
           KeyEvent.keycode k = Name (''0x'' @ format_02X (code ev)))) \<and>
   (REL ec (code ev) = None \<longrightarrow>
      (\<exists>r. RelEvent_init ec ev (Some True) = Inr r \<and>
           RelEvent.keycode r = Name (''0x'' @ format_02X (code ev)))) \<and>
   (ABS ec (code ev) = None \<longrightarrow>
      (\<exists>a. AbsEvent_init ec ev (Some True) = Inr a \<and>
           AbsEvent.keycode a = Name (''0x'' @ format_02X (code ev)))) \<and>
   (SYN ec (code ev) = None \<longrightarrow>
      (\<exists>s. SynEvent_init ec ev (Some True) = Inr s \<and>
           SynEvent.keycode s = Name (''0x'' @ format_02X (code ev)))) \<and>
   (0 \<le> code ev \<longrightarrow>
      hex_value (format_02X (code ev)) = code ev \<and>
      is_upper_hex (format_02X (code ev)) \<and>
      2 \<le> length (format_02X (code ev)) \<and>
      (length (format_02X (code ev)) = 2 \<or> hd (format_02X (code ev)) \<noteq> CHR ''0''))"
proof (intro conjI impI)
  assume "keys ec (code ev) = Some entry"
  then show "\<exists>k. KeyEvent_init ec ev au = Inr k \<and> KeyEvent.keycode k = entry"
    by (simp add: KeyEvent_init_found)
next
  assume "REL ec (code ev) = Some entry"
  then show "\<exists>r. RelEvent_init ec ev au = Inr r \<and> RelEvent.keycode r = entry"
    by (simp add: RelEvent_init_found)
next
  assume "ABS ec (code ev) = Some entry"
  then show "\<exists>a. AbsEvent_init ec ev au = Inr a \<and> AbsEvent.keycode a = entry"
    by (simp add: AbsEvent_init_found)
next
  assume "SYN ec (code ev) = Some entry"
  then show "\<exists>s. SynEvent_init ec ev au = Inr s \<and> SynEvent.keycode s = entry"
    by (simp add: SynEvent_init_found)
next
  assume "keys ec (code ev) = None"
  then show "\<exists>k. KeyEvent_init ec ev (Some True) = Inr k \<and>
      KeyEvent.keycode k = Name (''0x'' @ format_02X (code ev))"
    by (simp add: KeyEvent_init_missing arg_or_default_def)
next
  assume "REL ec (code ev) = None"
  then show "\<exists>r. RelEvent_init ec ev (Some True) = Inr r \<and>
      RelEvent.keycode r = Name (''0x'' @ format_02X (code ev))"
    by (simp add: RelEvent_init_missing arg_or_default_def)
next
  assume "ABS ec (code ev) = None"
  then show "\<exists>a. AbsEvent_init ec ev (Some True) = Inr a \<and>
      AbsEvent.keycode a = Name (''0x'' @ format_02X (code ev))"
    by (simp add: AbsEvent_init_missing arg_or_default_def)
next
  assume "SYN ec (code ev) = None"
  then show "\<exists>s. SynEvent_init ec ev (Some True) = Inr s \<and>
      SynEvent.keycode s = Name (''0x'' @ format_02X (code ev))"
    by (simp add: SynEvent_init_missing arg_or_default_def)
next
  assume c: "0 \<le> code ev"
  from format_02X_hex [OF c] show "hex_value (format_02X (code ev)) = code ev" by simp
  from format_02X_hex [OF c] show "is_upper_hex (format_02X (code ev))" by simp
  from format_02X_hex [OF c] show "2 \<le> length (format_02X (code ev))" by simp
  from format_02X_hex [OF c]
  show "length (format_02X (code ev)) = 2 \<or> hd (format_02X (code ev)) \<noteq> CHR ''0''" by simp
qed

theorem keycode_is_table_entry_or_hex_witness:
  "(\<exists>k. KeyEvent_init demo_ecodes (demo_event 1 113 1) None = Inr k \<and>
        KeyEvent.keycode k = Aliases [''KEY_MIN_INTERESTING'', ''KEY_MUTE'']) \<and>
   (\<exists>s. SynEvent_init demo_ecodes (demo_event 0 255 0) (Some True) = Inr s \<and>
        SynEvent.keycode s = Name ''0xFF'') \<and>
   hex_value ''FF'' = 255"
proof -
  have k: "keys demo_ecodes (code (demo_event 1 113 1)) =
      Some (Aliases [''KEY_MIN_INTERESTING'', ''KEY_MUTE''])"
    by (simp add: demo_keys_113)
  have s: "SYN demo_ecodes (code (demo_event 0 255 0)) = None"
    by (simp add: demo_ecodes_def)
  have c: "0 \<le> code (demo_event 0 255 0)"
    by simp
  from keycode_is_table_entry_or_hex
      [of demo_ecodes "demo_event 1 113 1" "Aliases [''KEY_MIN_INTERESTING'', ''KEY_MUTE'']" None]
    k
  have 1: "\<exists>k. KeyEvent_init demo_ecodes (demo_event 1 113 1) None = Inr k \<and>
        KeyEvent.keycode k = Aliases [''KEY_MIN_INTERESTING'', ''KEY_MUTE'']"
    by blast
  from keycode_is_table_entry_or_hex [of demo_ecodes "demo_event 0 255 0" "Name []" None] s c
  have 2: "(\<exists>s. SynEvent_init demo_ecodes (demo_event 0 255 0) (Some True) = Inr s \<and>
        SynEvent.keycode s = Name (''0x'' @ format_02X (code (demo_event 0 255 0)))) \<and>
      hex_value (format_02X (code (demo_event 0 255 0))) = code (demo_event 0 255 0)"
    by blast
  from 1 2 show ?thesis
    by (simp add: format_02X_255)
qed

text \<open>
  C1, as stated, fails: for a key code with two aliases the constructor does not choose
  the first alias, \<open>keycode\<close> is the whole entry.
\<close>

theorem first_alias_not_chosen:
  "KeyEvent_init demo_ecodes (demo_event 1 113 1) None =
     Inr \<lparr>scancode = 113,
          KeyEvent.keycode = Aliases [''KEY_MIN_INTERESTING'', ''KEY_MUTE''],
          keystate = Some 1, KeyEvent.event = demo_event 1 113 1\<rparr> \<and>
   Aliases [''KEY_MIN_INTERESTING'', ''KEY_MUTE''] \<noteq> Name ''KEY_MIN_INTERESTING''"
  by (simp add: KeyEvent_init_found demo_keys_113 keystate_of_value_def)

section \<open>Dispatch\<close>

lemma event_factory_dom:
  "dom (event_factory ec) = {EV_KEY ec, EV_REL ec, EV_ABS ec, EV_SYN ec}"
  by (auto simp: event_factory_def)

lemma categorize_registered:
  "event_factory ec (type ev) = Some cls \<Longrightarrow> categorize ec ev = construct ec cls ev None"
  by (simp add: categorize_def)

lemma categorize_unregistered:
  "event_factory ec (type ev) = None \<Longrightarrow> categorize ec ev = Inr (Raw ev)"
  by (simp add: categorize_def)

lemma init_defaults:
  "KeyEvent_init ec ev None = KeyEvent_init ec ev (Some False)"
  "RelEvent_init ec ev None = RelEvent_init ec ev (Some False)"
  "AbsEvent_init ec ev None = AbsEvent_init ec ev (Some False)"
  "SynEvent_init ec ev None = SynEvent_init ec ev (Some True)"
  by (simp_all add: KeyEvent_init_def RelEvent_init_def AbsEvent_init_def SynEvent_init_def
      arg_or_default_def)

text \<open>
  C5.  \<open>categorize\<close> calls the class that \<open>event_factory\<close> holds for the type of the
  event, with the event alone, so that \<open>allow_unknown\<close> takes the default of the class;
  an event whose type is none of the four keys of the table is returned unchanged.
  When the four event types are distinct, \<open>EV_KEY\<close> gives a \<open>KeyEvent\<close>, \<open>EV_REL\<close> a
  \<open>RelEvent\<close>, \<open>EV_ABS\<close> an \<open>AbsEvent\<close> (each built with \<open>allow_unknown\<close> false)
  and \<open>EV_SYN\<close> a \<open>SynEvent\<close> (built with \<open>allow_unknown\<close> true).
\<close>

theorem categorize_dispatch:
  "(\<forall>cls. event_factory ec (type ev) = Some cls \<longrightarrow>
      categorize ec ev = construct ec cls ev None) \<and>
   (event_factory ec (type ev) = None \<longrightarrow> categorize ec ev = Inr (Raw ev)) \<and>
   (type ev \<notin> {EV_KEY ec, EV_REL ec, EV_ABS ec, EV_SYN ec} \<longrightarrow>
      categorize ec ev = Inr (Raw ev)) \<and>
   (distinct [EV_KEY ec, EV_REL ec, EV_ABS ec, EV_SYN ec] \<longrightarrow>
      (type ev = EV_KEY ec \<longrightarrow>
         categorize ec ev = map_sum id Key (KeyEvent_init ec ev (Some False))) \<and>
      (type ev = EV_REL ec \<longrightarrow>
         categorize ec ev = map_sum id Rel (RelEvent_init ec ev (Some False))) \<and>
      (type ev = EV_ABS ec \<longrightarrow>
         categorize ec ev = map_sum id Abs (AbsEvent_init ec ev (Some False))) \<and>
      (type ev = EV_SYN ec \<longrightarrow>
         categorize ec ev = map_sum id Syn (SynEvent_init ec ev (Some True))))"
proof (intro conjI impI allI)
  fix cls
  assume "event_factory ec (type ev) = Some cls"
  then show "categorize ec ev = construct ec cls ev None"
    by (rule categorize_registered)
next
  assume "event_factory ec (type ev) = None"
  then show "categorize ec ev = Inr (Raw ev)"
    by (rule categorize_unregistered)
next
  assume "type ev \<notin> {EV_KEY ec, EV_REL ec, EV_ABS ec, EV_SYN ec}"
  then have "type ev \<notin> dom (event_factory ec)"
    by (simp add: event_factory_dom)
  then have "event_factory ec (type ev) = None"
    by blast
  then show "categorize ec ev = Inr (Raw ev)"
    by (rule categorize_unregistered)
next
  assume d: "distinct [EV_KEY ec, EV_REL ec, EV_ABS ec, EV_SYN ec]"
  {
    assume "type ev = EV_KEY ec"
    with d have "event_factory ec (type ev) = Some KeyEvent_class"
      by (simp add: event_factory_def)
    then show "categorize ec ev = map_sum id Key (KeyEvent_init ec ev (Some False))"
      by (simp add: categorize_registered init_defaults)
  }
  {
    assume "type ev = EV_REL ec"
    with d have "event_factory ec (type ev) = Some RelEvent_class"
      by (simp add: event_factory_def)
    then show "categorize ec ev = map_sum id Rel (RelEvent_init ec ev (Some False))"
      by (simp add: categorize_registered init_defaults)
  }
  {
    assume "type ev = EV_ABS ec"
    with d have "event_factory ec (type ev) = Some AbsEvent_class"
      by (simp add: event_factory_def)
    then show "categorize ec ev = map_sum id Abs (AbsEvent_init ec ev (Some False))"
      by (simp add: categorize_registered init_defaults)
  }
  {
    assume "type ev = EV_SYN ec"
    with d have "event_factory ec (type ev) = Some SynEvent_class"
      by (simp add: event_factory_def)
    then show "categorize ec ev = map_sum id Syn (SynEvent_init ec ev (Some True))"
      by (simp add: categorize_registered init_defaults)
  }
qed

theorem categorize_dispatch_witness:
  "categorize demo_ecodes (demo_event 1 28 0) =
     Inr (Key \<lparr>scancode = 28, KeyEvent.keycode = Name ''KEY_ENTER'', keystate = Some 0,
               KeyEvent.event = demo_event 1 28 0\<rparr>) \<and>
   categorize demo_ecodes (demo_event 1 5 0) = Inl (KeyError 5) \<and>
   categorize demo_ecodes (demo_event 0 5 0) =
     Inr (Syn \<lparr>SynEvent.event = demo_event 0 5 0, SynEvent.keycode = Name ''0x05''\<rparr>) \<and>
   categorize demo_ecodes (demo_event 4 4 458792) = Inr (Raw (demo_event 4 4 458792))"
proof -
  have d: "distinct [EV_KEY demo_ecodes, EV_REL demo_ecodes, EV_ABS demo_ecodes,
      EV_SYN demo_ecodes]"
    by (simp add: demo_ecodes_def)
  have t1: "type (demo_event 1 c v) = EV_KEY demo_ecodes" for c v
    by (simp add: demo_ecodes_def)
  have t0: "type (demo_event 0 c v) = EV_SYN demo_ecodes" for c v
    by (simp add: demo_ecodes_def)
  have t4: "type (demo_event 4 c v) \<notin>
      {EV_KEY demo_ecodes, EV_REL demo_ecodes, EV_ABS demo_ecodes, EV_SYN demo_ecodes}" for c v
    by (simp add: demo_ecodes_def)
  have x: "format_02X 5 = ''05''"
    by code_simp
  have s5: "SYN demo_ecodes 5 = None"
    by (simp add: demo_ecodes_def)
  from categorize_dispatch [of demo_ecodes "demo_event 1 28 0"] d t1
  have 1: "categorize demo_ecodes (demo_event 1 28 0) =
      map_sum id Key (KeyEvent_init demo_ecodes (demo_event 1 28 0) (Some False))"
    by blast
  from categorize_dispatch [of demo_ecodes "demo_event 1 5 0"] d t1
  have 2: "categorize demo_ecodes (demo_event 1 5 0) =
      map_sum id Key (KeyEvent_init demo_ecodes (demo_event 1 5 0) (Some False))"
    by blast
  from categorize_dispatch [of demo_ecodes "demo_event 0 5 0"] d t0
  have 3: "categorize demo_ecodes (demo_event 0 5 0) =
      map_sum id Syn (SynEvent_init demo_ecodes (demo_event 0 5 0) (Some True))"
    by blast
  from categorize_dispatch [of demo_ecodes "demo_event 4 4 458792"] t4
  have 4: "categorize demo_ecodes (demo_event 4 4 458792) = Inr (Raw (demo_event 4 4 458792))"
    by blast
  show ?thesis
    unfolding 1 2 3 4
    by (simp add: KeyEvent_init_found KeyEvent_init_missing SynEvent_init_missing
        demo_keys_28 demo_keys_5 s5 x keystate_of_value_def arg_or_default_def)
qed

section \<open>Rounding to binary64\<close>

lemma pow2_eq: "pow2 k = 2 powi k"
  by (simp add: pow2_def power_int_def power_inverse [symmetric] inverse_eq_divide
      power_one_over)

lemma pow2_pos: "0 < pow2 k"
  by (simp add: pow2_eq)

lemma pow2_add: "pow2 (j + k) = pow2 j * pow2 k"
  by (simp add: pow2_eq power_int_add)

lemma pow2_mono: "j \<le> k \<Longrightarrow> pow2 j \<le> pow2 k"
  by (simp add: pow2_eq power_int_increasing)

lemma pow2_strict_mono: "j < k \<Longrightarrow> pow2 j < pow2 k"
  by (simp add: pow2_eq power_int_strict_increasing)

lemma pow2_less_iff: "pow2 j < pow2 k \<longleftrightarrow> j < k"
  using pow2_strict_mono [of j k] pow2_mono [of k j] by (cases "j < k") auto

lemma pow2_nat: "0 \<le> k \<Longrightarrow> pow2 k = 2 ^ nat k"
  by (simp add: pow2_def)

lemma pow2_bitlen:
  assumes "0 < n"
  shows "pow2 (bitlen n - 1) \<le> of_int n" and "of_int n < pow2 (bitlen n)"
proof -
  from bitlen_bounds [OF assms]
  have lo: "2 ^ nat (bitlen n - 1) \<le> n" and hi: "n < 2 ^ nat (bitlen n)"
    by simp_all
  from assms have b: "1 \<le> bitlen n"
    using bitlen_eq_zero_iff [of n] bitlen_nonneg [of n] by linarith
  have "pow2 (bitlen n - 1) = of_int (2 ^ nat (bitlen n - 1))"
    using b by (simp add: pow2_nat)
  also have "\<dots> \<le> of_int n"
    using lo by (simp only: of_int_le_iff)
  finally show "pow2 (bitlen n - 1) \<le> of_int n" .
  have "(of_int n :: rat) < of_int (2 ^ nat (bitlen n))"
    using hi by (simp only: of_int_less_iff)
  also have "\<dots> = pow2 (bitlen n)"
    using b by (simp add: pow2_nat)
  finally show "of_int n < pow2 (bitlen n)" .
qed

lemma ilog2_bounds:
  assumes "0 < a"
  shows "pow2 (ilog2 a) \<le> a \<and> a < pow2 (ilog2 a + 1)"
proof -
  obtain n d where nd: "quotient_of a = (n, d)"
    by (cases "quotient_of a")
  then have d: "0 < d"
    by (rule quotient_of_denom_pos)
  have a: "a = of_int n / of_int d"
    using nd by (rule quotient_of_div)
  have n: "0 < n"
    using assms d by (simp add: a zero_less_divide_iff)
  define k where "k = bitlen n - bitlen d"
  have dq: "(0::rat) < of_int d"
    using d by simp
  have "pow2 (k - 1) * of_int d < pow2 (k - 1) * pow2 (bitlen d)"
    using pow2_bitlen(2) [OF d] pow2_pos [of "k - 1"] by simp
  also have "\<dots> = pow2 (bitlen n - 1)"
    by (simp add: pow2_add [symmetric] k_def)
  also have "\<dots> \<le> of_int n"
    by (rule pow2_bitlen(1) [OF n])
  finally have lo: "pow2 (k - 1) < a"
    using dq by (simp add: a pos_less_divide_eq)
  have "of_int n < pow2 (bitlen n)"
    by (rule pow2_bitlen(2) [OF n])
  also have "\<dots> = pow2 (k + 1) * pow2 (bitlen d - 1)"
    by (simp add: pow2_add [symmetric] k_def)
  also have "\<dots> \<le> pow2 (k + 1) * of_int d"
    using pow2_bitlen(1) [OF d] pow2_pos [of "k + 1"] by simp
  finally have hi: "a < pow2 (k + 1)"
    using dq by (simp add: a pos_divide_less_eq)
  have il: "ilog2 a = (if pow2 k \<le> a then k else k - 1)"
    by (simp add: ilog2_def nd k_def)
  show ?thesis
  proof (cases "pow2 k \<le> a")
    case True
    with hi il show ?thesis by simp
  next
    case False
    with lo il show ?thesis by simp
  qed
qed

lemma round_half_even_error: "\<bar>of_int (round_half_even x) - x\<bar> \<le> 1 / 2"
proof -
  have "of_int \<lfloor>x\<rfloor> \<le> x" "x < of_int \<lfloor>x\<rfloor> + 1"
    by linarith+
  then show ?thesis
    by (auto simp: round_half_even_def Let_def)
qed

lemma round_half_even_of_int: "round_half_even (of_int m) = m"
  by (simp add: round_half_even_def)

lemma round_to_double_unfold:
  "round_to_double q =
     (if q = 0 then Finite 0
      else if pow2 1024 \<le> rounded_abs \<bar>q\<bar> then (if q < 0 then NegInf else PosInf)
      else Finite (if q < 0 then - rounded_abs \<bar>q\<bar> else rounded_abs \<bar>q\<bar>))"
  by (simp add: round_to_double_def rounded_abs_def ulp_of_def Let_def)

lemma ulp_of_pos: "0 < ulp_of a"
  by (simp add: ulp_of_def pow2_pos)

lemma rounded_abs_error: "\<bar>rounded_abs a - a\<bar> \<le> ulp_of a / 2"
proof -
  have u: "0 < ulp_of a" by (rule ulp_of_pos)
  have "rounded_abs a - a = (of_int (round_half_even (a / ulp_of a)) - a / ulp_of a) * ulp_of a"
    using u by (simp add: rounded_abs_def left_diff_distrib)
  then have "\<bar>rounded_abs a - a\<bar> = \<bar>of_int (round_half_even (a / ulp_of a)) - a / ulp_of a\<bar> * ulp_of a"
    using u by (simp only: abs_mult abs_of_pos)
  also have "\<dots> \<le> (1 / 2) * ulp_of a"
    using round_half_even_error [of "a / ulp_of a"] u by (intro mult_right_mono) simp_all
  finally show ?thesis by simp
qed

lemma ulp_of_le:
  assumes "0 < a"
  shows "ulp_of a \<le> max (a / 2 ^ 52) (pow2 (- 1074))"
proof (cases "ilog2 a - 52 \<le> - 1074")
  case True
  then show ?thesis by (simp add: ulp_of_def max_def)
next
  case False
  then have "ulp_of a = pow2 (ilog2 a - 52)"
    by (simp add: ulp_of_def max_def)
  also have "\<dots> = pow2 (ilog2 a) * pow2 (- 52)"
    using pow2_add [of "ilog2 a" "- 52"] by simp
  also have "\<dots> \<le> a * pow2 (- 52)"
    using ilog2_bounds [OF assms] pow2_pos [of "- 52"] by simp
  also have "\<dots> = a / 2 ^ 52"
    by (simp add: pow2_def)
  finally show ?thesis by simp
qed

lemma rounded_abs_close:
  assumes "0 < a"
  shows "\<bar>rounded_abs a - a\<bar> \<le> a / 2 ^ 53 + pow2 (- 1075)"
proof -
  have "ulp_of a / 2 \<le> max (a / 2 ^ 52) (pow2 (- 1074)) / 2"
    using ulp_of_le [OF assms] by simp
  also have "\<dots> = max (a / 2 ^ 53) (pow2 (- 1075))"
    by (simp add: max_def pow2_def)
  also have "\<dots> \<le> a / 2 ^ 53 + pow2 (- 1075)"
    using assms pow2_pos [of "- 1075"] by (simp add: max_def)
  finally show ?thesis
    using rounded_abs_error [of a] by linarith
qed

lemma pow2_double: "pow2 (k + 1) = 2 * pow2 k"
proof -
  have "pow2 1 = 2" by (simp add: pow2_def)
  then show ?thesis by (simp add: pow2_add)
qed

lemma round_to_double_finite:
  assumes "\<bar>q\<bar> < pow2 1023"
  shows "\<exists>r. round_to_double q = Finite r \<and> \<bar>r - q\<bar> \<le> \<bar>q\<bar> / 2 ^ 53 + pow2 (- 1075)"
proof (cases "q = 0")
  case True
  then show ?thesis
    using pow2_pos [of "- 1075"] by (simp add: round_to_double_unfold)
next
  case False
  then have a: "0 < \<bar>q\<bar>" by simp
  let ?r = "rounded_abs \<bar>q\<bar>"
  note close = rounded_abs_close [OF a]
  have "\<bar>q\<bar> / 2 ^ 53 \<le> \<bar>q\<bar> / 2"
    using a by (simp add: field_simps)
  moreover have "pow2 (- 1075) \<le> pow2 1022"
    by (rule pow2_mono) simp
  moreover have "pow2 1023 = 2 * pow2 1022" "pow2 1024 = 2 * pow2 1023"
    using pow2_double [of 1022] pow2_double [of 1023] by simp_all
  ultimately have "?r < pow2 1024"
    using close assms by linarith
  then have rd: "round_to_double q = Finite (if q < 0 then - ?r else ?r)"
    using False by (simp add: round_to_double_unfold)
  have "\<bar>(if q < 0 then - ?r else ?r) - q\<bar> = \<bar>?r - \<bar>q\<bar>\<bar>"
    by (cases "q < 0") simp_all
  with close rd show ?thesis by simp
qed

lemma of_int_u64_bound:
  assumes "0 \<le> i" "i < 2 ^ 64"
  shows "\<bar>of_int i :: rat\<bar> < pow2 64"
proof -
  have "(of_int i :: rat) < of_int (2 ^ 64)"
    using assms(2) by (simp only: of_int_less_iff)
  then show ?thesis
    using assms(1) by (simp add: pow2_def)
qed

lemma round_to_double_int_exact:
  assumes "\<bar>i\<bar> < 2 ^ 53"
  shows "round_to_double (of_int i) = Finite (of_int i)"
proof (cases "i = 0")
  case True
  then show ?thesis by (simp add: round_to_double_unfold)
next
  case False
  define a :: rat where "a = of_int \<bar>i\<bar>"
  define e where "e = ilog2 a"
  have a1: "1 \<le> a"
    using False by (simp add: a_def)
  have "(of_int \<bar>i\<bar> :: rat) < of_int (2 ^ 53)"
    using assms by (simp only: of_int_less_iff)
  then have a53: "a < pow2 53"
    by (simp add: a_def pow2_def)
  from a1 have apos: "0 < a" by simp
  note b = ilog2_bounds [OF apos, folded e_def]
  have "pow2 e < pow2 53"
    using b a53 by linarith
  then have e53: "e < 53"
    by (simp add: pow2_less_iff)
  have "pow2 0 < pow2 (e + 1)"
    using b a1 by (simp add: pow2_def) 
  then have e0: "0 \<le> e"
    by (simp add: pow2_less_iff)
  have u: "ulp_of a = pow2 (e - 52)"
    using e0 by (simp add: ulp_of_def e_def max_def)
  have pp: "pow2 (52 - e) * pow2 (e - 52) = 1"
    using pow2_add [of "52 - e" "e - 52"] by (simp add: pow2_def)
  have pn: "pow2 (52 - e) = of_int (2 ^ nat (52 - e))"
    using e53 by (simp add: pow2_nat)
  have "a / ulp_of a = a * pow2 (52 - e)"
    using pp pow2_pos [of "e - 52"] by (simp add: u field_simps)
  also have "\<dots> = of_int (\<bar>i\<bar> * 2 ^ nat (52 - e))"
    by (simp add: a_def pn)
  finally have rh: "round_half_even (a / ulp_of a) = \<bar>i\<bar> * 2 ^ nat (52 - e)"
    by (simp only: round_half_even_of_int)
  have "rounded_abs a = of_int (round_half_even (a / ulp_of a)) * ulp_of a"
    by (simp only: rounded_abs_def)
  also have "\<dots> = of_int (\<bar>i\<bar> * 2 ^ nat (52 - e)) * ulp_of a"
    by (simp only: rh)
  also have "\<dots> = of_int (\<bar>i\<bar> * 2 ^ nat (52 - e)) * pow2 (e - 52)"
    by (simp only: u)
  also have "\<dots> = a * (pow2 (52 - e) * pow2 (e - 52))"
    by (simp add: a_def pn)
  finally have r: "rounded_abs a = a"
    by (simp add: pp)
  have "pow2 53 \<le> pow2 1024"
    by (rule pow2_mono) simp
  with a53 have nov: "\<not> pow2 1024 \<le> a" by simp
  have aq: "\<bar>of_int i :: rat\<bar> = a"
    by (simp add: a_def)
  have "round_to_double (of_int i) =
      (if (of_int i :: rat) = 0 then Finite 0
       else if pow2 1024 \<le> rounded_abs a
         then (if (of_int i :: rat) < 0 then NegInf else PosInf)
       else Finite (if (of_int i :: rat) < 0 then - rounded_abs a else rounded_abs a))"
    by (simp only: round_to_double_unfold aq)
  also have "\<dots> = Finite (if (of_int i :: rat) < 0 then - a else a)"
    using False nov by (simp only: r) simp
  also have "\<dots> = Finite (of_int i)"
    by (simp add: a_def)
  finally show ?thesis .
qed

lemma float_of_int_exact:
  "\<bar>i\<bar> < 2 ^ 53 \<Longrightarrow> float_of_int i = Inr (Finite (of_int i))"
  by (simp add: float_of_int_def round_to_double_int_exact)

lemma float_of_int_finite:
  assumes "\<bar>of_int i :: rat\<bar> < pow2 1023"
  shows "\<exists>r. float_of_int i = Inr (Finite r) \<and>
           \<bar>r - of_int i\<bar> \<le> \<bar>of_int i\<bar> / 2 ^ 53 + pow2 (- 1075)"
  using round_to_double_finite [OF assms] by (auto simp: float_of_int_def)

lemma pow2_64_le: "pow2 64 \<le> pow2 1000"
  by (rule pow2_mono) simp

lemma round_close_le_double:
  assumes "\<bar>r - q\<bar> \<le> \<bar>q\<bar> / 2 ^ 53 + pow2 (- 1075)"
  shows "\<bar>r\<bar> \<le> 2 * \<bar>q\<bar> + 1"
proof -
  have "pow2 (- 1075) \<le> pow2 0"
    by (rule pow2_mono) simp
  then have "pow2 (- 1075) \<le> 1"
    by (simp add: pow2_def)
  moreover have "\<bar>q\<bar> / 2 ^ 53 \<le> \<bar>q\<bar>"
    by (simp add: field_simps)
  ultimately show ?thesis
    using assms by linarith
qed

lemma timestamp_steps:
  assumes "0 \<le> sec ev" "sec ev < 2 ^ 64" "0 \<le> usec ev" "usec ev < 2 ^ 64"
  shows "\<exists>u q s t.
      float_of_int (usec ev) = Inr (Finite u) \<and>
      \<bar>u - of_int (usec ev)\<bar> \<le> \<bar>of_int (usec ev)\<bar> / 2 ^ 53 + pow2 (- 1075) \<and>
      round_to_double (u / 1000000) = Finite q \<and>
      \<bar>q - u / 1000000\<bar> \<le> \<bar>u / 1000000\<bar> / 2 ^ 53 + pow2 (- 1075) \<and>
      float_of_int (sec ev) = Inr (Finite s) \<and>
      \<bar>s - of_int (sec ev)\<bar> \<le> \<bar>of_int (sec ev)\<bar> / 2 ^ 53 + pow2 (- 1075) \<and>
      round_to_double (s + q) = Finite t \<and>
      \<bar>t - (s + q)\<bar> \<le> \<bar>s + q\<bar> / 2 ^ 53 + pow2 (- 1075) \<and>
      timestamp ev = Inr (Finite t)"
proof -
  have big: "pow2 64 \<le> pow2 1000" "pow2 1000 * 16 = pow2 1004" "pow2 1004 \<le> pow2 1023"
    "1 \<le> pow2 64"
  proof -
    show "pow2 64 \<le> pow2 1000" by (rule pow2_mono) simp
    have "pow2 1004 = pow2 1000 * pow2 4" using pow2_add [of 1000 4] by simp
    then show "pow2 1000 * 16 = pow2 1004" by (simp add: pow2_def [of 4])
    show "pow2 1004 \<le> pow2 1023" by (rule pow2_mono) simp
    have "pow2 0 \<le> pow2 64" by (rule pow2_mono) simp
    then show "1 \<le> pow2 64" by (simp add: pow2_def [of 0])
  qed
  note bu = of_int_u64_bound [OF assms(3,4)]
  note bs = of_int_u64_bound [OF assms(1,2)]
  from bu big have "\<bar>of_int (usec ev) :: rat\<bar> < pow2 1023" by linarith
  from float_of_int_finite [OF this] obtain u where
    u: "float_of_int (usec ev) = Inr (Finite u)"
    and ue: "\<bar>u - of_int (usec ev)\<bar> \<le> \<bar>of_int (usec ev)\<bar> / 2 ^ 53 + pow2 (- 1075)"
    by blast
  from round_close_le_double [OF ue] bu have ub: "\<bar>u\<bar> \<le> 2 * pow2 64 + 1"
    by linarith
  have "\<bar>u / 1000000\<bar> \<le> \<bar>u\<bar>"
    by (simp add: field_simps)
  with ub have qb0: "\<bar>u / 1000000\<bar> \<le> 2 * pow2 64 + 1"
    by linarith
  with big have "\<bar>u / 1000000\<bar> < pow2 1023"
    by linarith
  from round_to_double_finite [OF this] obtain q where
    q: "round_to_double (u / 1000000) = Finite q"
    and qe: "\<bar>q - u / 1000000\<bar> \<le> \<bar>u / 1000000\<bar> / 2 ^ 53 + pow2 (- 1075)"
    by blast
  from round_close_le_double [OF qe] qb0 have qb: "\<bar>q\<bar> \<le> 4 * pow2 64 + 3"
    by linarith
  from bs big have "\<bar>of_int (sec ev) :: rat\<bar> < pow2 1023" by linarith
  from float_of_int_finite [OF this] obtain s where
    s: "float_of_int (sec ev) = Inr (Finite s)"
    and se: "\<bar>s - of_int (sec ev)\<bar> \<le> \<bar>of_int (sec ev)\<bar> / 2 ^ 53 + pow2 (- 1075)"
    by blast
  from round_close_le_double [OF se] bs have sb: "\<bar>s\<bar> \<le> 2 * pow2 64 + 1"
    by linarith
  from sb qb big have "\<bar>s + q\<bar> < pow2 1023"
    by linarith
  from round_to_double_finite [OF this] obtain t where
    t: "round_to_double (s + q) = Finite t"
    and te: "\<bar>t - (s + q)\<bar> \<le> \<bar>s + q\<bar> / 2 ^ 53 + pow2 (- 1075)"
    by blast
  have "timestamp ev = Inr (Finite t)"
    by (simp add: timestamp_def u s float_truediv_def q float_add_def t)
  with u ue q qe s se t te show ?thesis
    by blast
qed

lemma accumulate_error:
  fixes S U u q s t p eps :: rat
  assumes nn: "0 \<le> S" "0 \<le> U" "0 \<le> p" "0 \<le> eps" "eps \<le> 1"
    and ue: "\<bar>u - U\<bar> \<le> eps * U + p"
    and qe: "\<bar>q - u / 1000000\<bar> \<le> eps * \<bar>u / 1000000\<bar> + p"
    and se: "\<bar>s - S\<bar> \<le> eps * S + p"
    and te: "\<bar>t - (s + q)\<bar> \<le> eps * \<bar>s + q\<bar> + p"
  shows "\<bar>t - (S + U / 1000000)\<bar> \<le> 8 * eps * (S + U / 1000000) + 9 * p"
proof -
  define V where "V = U / 1000000"
  define v where "v = u / 1000000"
  define eS where "eS = eps * S"
  define eV where "eV = eps * V"
  have V: "0 \<le> V" using nn by (simp add: V_def)
  have eS: "0 \<le> eS" using nn by (simp add: eS_def)
  have eV: "0 \<le> eV" using nn V by (simp add: eV_def)
  have shrink: "eps * y \<le> y" if "0 \<le> y" for y
    using mult_right_mono [OF \<open>eps \<le> 1\<close> that] by simp
  have "\<bar>v - V\<bar> = \<bar>u - U\<bar> / 1000000"
    by (simp add: v_def V_def diff_divide_distrib [symmetric])
  also have "\<dots> \<le> (eps * U + p) / 1000000"
    using ue by (simp add: divide_right_mono)
  also have "\<dots> = eV + p / 1000000"
    by (simp add: eV_def V_def add_divide_distrib)
  also have "\<dots> \<le> eV + p"
    using nn by (simp add: field_simps)
  finally have ve: "\<bar>v - V\<bar> \<le> eV + p" .
  then have vb: "\<bar>v\<bar> \<le> V + eV + p"
    using V by linarith
  have "eps * \<bar>v\<bar> \<le> eps * (V + eV + p)"
    using vb nn by (intro mult_left_mono) simp_all
  also have "\<dots> = eV + eps * eV + eps * p"
    by (simp add: algebra_simps eV_def)
  also have "\<dots> \<le> eV + eV + p"
    using shrink [OF eV] shrink [OF nn(3)] by linarith
  finally have "eps * \<bar>v\<bar> \<le> 2 * eV + p" by simp
  with qe have "\<bar>q - v\<bar> \<le> 2 * eV + 2 * p"
    by (simp add: v_def)
  with ve have qV: "\<bar>q - V\<bar> \<le> 3 * eV + 3 * p"
    by linarith
  from se have sS: "\<bar>s - S\<bar> \<le> eS + p"
    by (simp add: eS_def)
  from qV sS nn V have sqb: "\<bar>s + q\<bar> \<le> S + V + eS + 3 * eV + 4 * p"
    by linarith
  have "eps * \<bar>s + q\<bar> \<le> eps * (S + V + eS + 3 * eV + 4 * p)"
    using sqb nn by (intro mult_left_mono) simp_all
  also have "\<dots> = eS + eV + eps * eS + 3 * (eps * eV) + 4 * (eps * p)"
    by (simp add: algebra_simps eS_def eV_def)
  also have "\<dots> \<le> eS + eV + eS + 3 * eV + 4 * p"
    using shrink [OF eS] shrink [OF eV] shrink [OF nn(3)] by linarith
  finally have "eps * \<bar>s + q\<bar> \<le> 2 * eS + 4 * eV + 4 * p" by simp
  with te have "\<bar>t - (s + q)\<bar> \<le> 2 * eS + 4 * eV + 5 * p"
    by linarith
  with sS qV have "\<bar>t - (S + V)\<bar> \<le> 3 * eS + 7 * eV + 9 * p"
    by linarith
  also have "\<dots> \<le> 8 * eS + 8 * eV + 9 * p"
    using eS eV by linarith
  also have "\<dots> = 8 * eps * (S + V) + 9 * p"
    by (simp add: algebra_simps eS_def eV_def)
  finally show ?thesis
    by (simp add: V_def)
qed

lemma tiny_absorbed:
  assumes "1 / 1000000 \<le> (X :: rat)"
  shows "8 * (1 / 2 ^ 53) * X + 9 * pow2 (- 1075) \<le> X / 2 ^ 49"
proof -
  have "pow2 (- 1075) \<le> pow2 (- 80)"
    by (rule pow2_mono) simp
  then have "9 * pow2 (- 1075) \<le> 9 / 2 ^ 80"
    by (simp add: pow2_def)
  also have "\<dots> \<le> 8 * (1 / 2 ^ 53) * (1 / 1000000)"
    by simp
  also have "\<dots> \<le> 8 * (1 / 2 ^ 53) * X"
    using assms by (intro mult_left_mono) simp_all
  finally show ?thesis
    by simp
qed

lemma round_half_even_unique:
  assumes "\<bar>x - of_int m\<bar> < 1 / 2"
  shows "round_half_even x = m"
proof (cases "of_int m \<le> x")
  case True
  with assms have "\<lfloor>x\<rfloor> = m"
    by (intro floor_unique) linarith+
  with assms True show ?thesis
    by (simp add: round_half_even_def Let_def)
next
  case False
  with assms have f: "\<lfloor>x\<rfloor> = m - 1"
    by (intro floor_unique) simp_all
  from assms False have "1 / 2 < x - of_int (m - 1)"
    by simp
  with f show ?thesis
    by (simp add: round_half_even_def Let_def)
qed

lemma ilog2_unique:
  assumes "pow2 e \<le> a" "a < pow2 (e + 1)"
  shows "ilog2 a = e"
proof -
  have "0 < a"
    using assms(1) pow2_pos [of e] by linarith
  note b = ilog2_bounds [OF this]
  from b assms have "pow2 (ilog2 a) < pow2 (e + 1)" "pow2 e < pow2 (ilog2 a + 1)"
    by linarith+
  then show ?thesis
    by (simp add: pow2_less_iff)
qed

lemma round_to_double_eval:
  assumes "pow2 e \<le> q" "q < pow2 (e + 1)" "- 1022 \<le> e" "e < 1023"
    and "\<bar>q / pow2 (e - 52) - of_int m\<bar> < 1 / 2"
  shows "round_to_double q = Finite (of_int m * pow2 (e - 52))"
proof -
  have q: "0 < q"
    using assms(1) pow2_pos [of e] by linarith
  then have aq: "\<bar>q\<bar> = q" by simp
  have il: "ilog2 q = e"
    using assms(1,2) by (rule ilog2_unique)
  have "max (e - 52) (- 1074) = e - 52"
    using assms(3) by simp
  then have u: "ulp_of q = pow2 (e - 52)"
    by (simp only: ulp_of_def il)
  have r: "rounded_abs q = of_int m * pow2 (e - 52)"
    by (simp add: rounded_abs_def u round_half_even_unique [OF assms(5)])
  have up: "0 < pow2 (e - 52)" by (rule pow2_pos)
  from assms(5) have "of_int m < q / pow2 (e - 52) + 1 / 2"
    by linarith
  then have "of_int m * pow2 (e - 52) < (q / pow2 (e - 52) + 1 / 2) * pow2 (e - 52)"
    using up by (simp only: mult_less_cancel_right_pos)
  also have "\<dots> = q + pow2 (e - 52) / 2"
    using up by (simp add: field_simps)
  also have "pow2 (e - 52) \<le> pow2 (e + 1)"
    by (rule pow2_mono) simp
  finally have "of_int m * pow2 (e - 52) < pow2 (e + 1) + pow2 (e + 1) / 2"
    using assms(2) by linarith
  moreover have "pow2 (e + 1) \<le> pow2 1023"
    using assms(4) by (intro pow2_mono) simp
  moreover have "pow2 1024 = 2 * pow2 1023"
    using pow2_double [of 1023] by simp
  ultimately have "\<not> pow2 1024 \<le> rounded_abs q"
    using pow2_pos [of "e + 1"] by (simp add: r)
  then show ?thesis
    using q by (simp add: round_to_double_unfold aq r)
qed

lemma timestamp_eval:
  assumes "\<bar>sec ev\<bar> < 2 ^ 53" "\<bar>usec ev\<bar> < 2 ^ 53"
    and "round_to_double (of_int (usec ev) / 1000000) = Finite q"
    and "round_to_double (of_int (sec ev) + q) = Finite t"
  shows "timestamp ev = Inr (Finite t)"
  using assms
  by (simp add: timestamp_def float_of_int_exact float_truediv_def float_add_def)

lemma golden_quotient:
  "round_to_double (477835 / 1000000) = Finite (2151977527944581 / 4503599627370496)"
  using round_to_double_eval [of "- 2" "477835 / 1000000" 8607910111778324]
  by (simp add: pow2_def)

lemma golden_sum:
  "round_to_double (1337197425 + 2151977527944581 / 4503599627370496) =
     Finite (5608612510471385 / 4194304)"
  using round_to_double_eval
    [of 30 "1337197425 + 2151977527944581 / 4503599627370496" 5608612510471385]
  by (simp add: pow2_def)

lemma golden_timestamp:
  "timestamp (demo_event t c v) = Inr (Finite (5608612510471385 / 4194304))"
proof (rule timestamp_eval)
  show "\<bar>sec (demo_event t c v)\<bar> < 2 ^ 53" "\<bar>usec (demo_event t c v)\<bar> < 2 ^ 53"
    by simp_all
  have "of_int (usec (demo_event t c v)) / 1000000 = (477835 / 1000000 :: rat)"
    by simp
  then show "round_to_double (of_int (usec (demo_event t c v)) / 1000000) =
      Finite (2151977527944581 / 4503599627370496)"
    by (simp only: golden_quotient)
  have "of_int (sec (demo_event t c v)) + 2151977527944581 / 4503599627370496 =
      (1337197425 + 2151977527944581 / 4503599627370496 :: rat)"
    by simp
  then show "round_to_double
      (of_int (sec (demo_event t c v)) + 2151977527944581 / 4503599627370496) =
      Finite (5608612510471385 / 4194304)"
    by (simp only: golden_sum)
qed

lemma float_of_int_representable:
  "representable (of_int i) \<Longrightarrow> float_of_int i = Inr (Finite (of_int i))"
  by (simp add: representable_def float_of_int_def)

section \<open>The timestamp\<close>

text \<open>
  C7.  For every event whose \<open>sec\<close> and \<open>usec\<close> are unsigned 64-bit numbers,
  \<open>timestamp\<close> returns a finite float and raises nothing; the float is
  \<open>sec + usec / 1000000\<close> evaluated in binary64, within a relative error of
  \<open>2 ^ - 49\<close> of the exact value, and it is the exact value whenever \<open>sec\<close>, \<open>usec\<close>,
  the quotient and the sum are representable.  The function reads its argument only.
\<close>

theorem timestamp_sec_plus_usec:
  assumes "0 \<le> sec ev" "sec ev < 2 ^ 64" "0 \<le> usec ev" "usec ev < 2 ^ 64"
  shows "\<exists>t. timestamp ev = Inr (Finite t) \<and>
           \<bar>t - exact_timestamp ev\<bar> \<le> exact_timestamp ev / 2 ^ 49 \<and>
           (representable (of_int (sec ev)) \<and> representable (of_int (usec ev)) \<and>
            representable (of_int (usec ev) / 1000000) \<and>
            representable (exact_timestamp ev) \<longrightarrow> t = exact_timestamp ev)"
proof -
  define S :: rat where "S = of_int (sec ev)"
  define U :: rat where "U = of_int (usec ev)"
  have X: "exact_timestamp ev = S + U / 1000000"
    by (simp add: exact_timestamp_def S_def U_def)
  have S0: "0 \<le> S" and U0: "0 \<le> U"
    using assms by (simp_all add: S_def U_def)
  from timestamp_steps [OF assms, folded S_def U_def] obtain u q s t where
    u: "float_of_int (usec ev) = Inr (Finite u)"
    and ue: "\<bar>u - U\<bar> \<le> \<bar>U\<bar> / 2 ^ 53 + pow2 (- 1075)"
    and q: "round_to_double (u / 1000000) = Finite q"
    and qe: "\<bar>q - u / 1000000\<bar> \<le> \<bar>u / 1000000\<bar> / 2 ^ 53 + pow2 (- 1075)"
    and s: "float_of_int (sec ev) = Inr (Finite s)"
    and se: "\<bar>s - S\<bar> \<le> \<bar>S\<bar> / 2 ^ 53 + pow2 (- 1075)"
    and t: "round_to_double (s + q) = Finite t"
    and te: "\<bar>t - (s + q)\<bar> \<le> \<bar>s + q\<bar> / 2 ^ 53 + pow2 (- 1075)"
    and ts: "timestamp ev = Inr (Finite t)"
    by blast
  have close: "\<bar>t - (S + U / 1000000)\<bar> \<le> (S + U / 1000000) / 2 ^ 49"
  proof (cases "sec ev = 0 \<and> usec ev = 0")
    case True
    then have "float_of_int (usec ev) = Inr (Finite 0)" "float_of_int (sec ev) = Inr (Finite 0)"
      by (simp_all add: float_of_int_exact)
    with u s have "u = 0" "s = 0" by simp_all
    with q have "q = 0" by (simp add: round_to_double_unfold)
    with t \<open>s = 0\<close> have "t = 0" by (simp add: round_to_double_unfold)
    with True show ?thesis by (simp add: S_def U_def)
  next
    case False
    with assms have "1 \<le> sec ev \<or> 1 \<le> usec ev" by linarith
    then have "1 \<le> S \<or> 1 \<le> U"
      by (simp add: S_def U_def)
    with S0 U0 have big: "1 / 1000000 \<le> S + U / 1000000"
      by (auto simp: field_simps) 
    have "\<bar>t - (S + U / 1000000)\<bar>
        \<le> 8 * (1 / 2 ^ 53) * (S + U / 1000000) + 9 * pow2 (- 1075)"
    proof (rule accumulate_error [OF S0 U0])
      show "0 \<le> pow2 (- 1075)" using pow2_pos [of "- 1075"] by simp
      show "(0::rat) \<le> 1 / 2 ^ 53" "(1::rat) / 2 ^ 53 \<le> 1" by simp_all
      show "\<bar>u - U\<bar> \<le> 1 / 2 ^ 53 * U + pow2 (- 1075)"
        using ue U0 by simp
      show "\<bar>q - u / 1000000\<bar> \<le> 1 / 2 ^ 53 * \<bar>u / 1000000\<bar> + pow2 (- 1075)"
        using qe by simp
      show "\<bar>s - S\<bar> \<le> 1 / 2 ^ 53 * S + pow2 (- 1075)"
        using se S0 by simp
      show "\<bar>t - (s + q)\<bar> \<le> 1 / 2 ^ 53 * \<bar>s + q\<bar> + pow2 (- 1075)"
        using te by simp
    qed
    also have "\<dots> \<le> (S + U / 1000000) / 2 ^ 49"
      by (rule tiny_absorbed [OF big])
    finally show ?thesis .
  qed
  have exact: "t = S + U / 1000000"
    if r: "representable S" "representable U" "representable (U / 1000000)"
      "representable (S + U / 1000000)"
  proof -
    from r(2) u have uU: "u = U"
      by (simp add: U_def float_of_int_representable)
    from r(3) have "round_to_double (U / 1000000) = Finite (U / 1000000)"
      by (simp only: representable_def)
    with q have qU: "q = U / 1000000"
      by (simp only: uU pyfloat.inject)
    from r(1) s have sS: "s = S"
      by (simp add: S_def float_of_int_representable)
    from r(4) have "round_to_double (S + U / 1000000) = Finite (S + U / 1000000)"
      by (simp only: representable_def)
    with t show ?thesis
      by (simp only: sS qU pyfloat.inject)
  qed
  show ?thesis
    using ts close exact unfolding X S_def U_def by blast
qed

lemma representable_int: "\<bar>i\<bar> < 2 ^ 53 \<Longrightarrow> representable (of_int i)"
  by (simp add: representable_def round_to_double_int_exact)

lemma representable_half: "representable (1 / 2)"
  unfolding representable_def
  using round_to_double_eval [of "- 1" "1 / 2" 4503599627370496]
  by (simp add: pow2_def)

lemma representable_half_second: "representable (2674394851 / 2)"
  unfolding representable_def
  using round_to_double_eval [of 30 "2674394851 / 2" 5608612510564352]
  by (simp add: pow2_def)

theorem timestamp_sec_plus_usec_witness:
  "timestamp \<lparr>sec = 1337197425, usec = 500000, type = 1, code = 28, val = 0\<rparr> =
     Inr (Finite (2674394851 / 2))"
proof -
  let ?ev = "\<lparr>sec = 1337197425, usec = 500000, type = 1, code = 28, val = 0\<rparr>"
  have range: "0 \<le> sec ?ev" "sec ?ev < 2 ^ 64" "0 \<le> usec ?ev" "usec ?ev < 2 ^ 64"
    by simp_all
  have x: "exact_timestamp ?ev = 2674394851 / 2"
    by (simp add: exact_timestamp_def)
  have r1: "representable (of_int (sec ?ev))" and r2: "representable (of_int (usec ?ev))"
    by (rule representable_int, simp)+
  have r3: "representable (of_int (usec ?ev) / 1000000)"
    using representable_half by simp
  have r4: "representable (exact_timestamp ?ev)"
    using representable_half_second by (simp only: x)
  from timestamp_sec_plus_usec [OF range] r1 r2 r3 r4 x show ?thesis
    by auto
qed

section \<open>Display strings\<close>

lemma tuple_getitem_states:
  "tuple_getitem [''up'', ''down'', ''hold''] 0 = Inr ''up''"
  "tuple_getitem [''up'', ''down'', ''hold''] 1 = Inr ''down''"
  "tuple_getitem [''up'', ''down'', ''hold''] 2 = Inr ''hold''"
  by (simp_all add: tuple_getitem_def)

lemma golden_format: "format_f (Finite (5608612510471385 / 4194304)) = ''1337197425.477835''"
  by code_simp

lemma str_int_28: "str_int 28 = ''28''"
  by code_simp

text \<open>
  C8.  With a key table that maps 28 to \<open>KEY_ENTER\<close>, the event of the module's
  docstring, \<open>InputEvent(1337197425, 477835, EV_KEY, 28, 0)\<close>, gives a \<open>KeyEvent\<close> with
  scancode 28, keycode \<open>KEY_ENTER\<close> and key state \<open>key_up\<close>, whose display string is
  \<open>key event at 1337197425.477835, 28 (KEY_ENTER), up\<close>.
\<close>

theorem golden_key_enter:
  assumes "keys ec 28 = Some (Name ''KEY_ENTER'')"
  shows "KeyEvent_init ec
           \<lparr>sec = 1337197425, usec = 477835, type = EV_KEY ec, code = 28, val = 0\<rparr> None =
         Inr \<lparr>scancode = 28, KeyEvent.keycode = Name ''KEY_ENTER'', keystate = Some key_up,
              KeyEvent.event =
                \<lparr>sec = 1337197425, usec = 477835, type = EV_KEY ec, code = 28, val = 0\<rparr>\<rparr> \<and>
         construct ec KeyEvent_class
           \<lparr>sec = 1337197425, usec = 477835, type = EV_KEY ec, code = 28, val = 0\<rparr> None =
         Inr (Key \<lparr>scancode = 28, KeyEvent.keycode = Name ''KEY_ENTER'',
                   keystate = Some key_up,
                   KeyEvent.event =
                     \<lparr>sec = 1337197425, usec = 477835, type = EV_KEY ec, code = 28,
                        val = 0\<rparr>\<rparr>) \<and>
         KeyEvent_str
           \<lparr>scancode = 28, KeyEvent.keycode = Name ''KEY_ENTER'', keystate = Some key_up,
              KeyEvent.event =
                \<lparr>sec = 1337197425, usec = 477835, type = EV_KEY ec, code = 28, val = 0\<rparr>\<rparr> =
         Inr ''key event at 1337197425.477835, 28 (KEY_ENTER), up''"
proof -
  let ?ev = "demo_event (EV_KEY ec) 28 0"
  let ?k = "\<lparr>scancode = 28, KeyEvent.keycode = Name ''KEY_ENTER'', keystate = Some key_up,
              KeyEvent.event = ?ev\<rparr>"
  have init: "KeyEvent_init ec ?ev None = Inr ?k"
    using assms by (simp add: KeyEvent_init_found keystate_of_value_def key_up_def)
  have ks: "KeyEvent_ks ?k = Inr ''up''"
    by (simp add: KeyEvent_ks_def get_keystate_def key_up_def tuple_getitem_states)
  have str: "KeyEvent_str ?k = Inr ''key event at 1337197425.477835, 28 (KEY_ENTER), up''"
    by (simp add: KeyEvent_str_def ks golden_timestamp golden_format str_int_28)
  from init str show ?thesis
    by (simp add: demo_event_def)
qed

theorem golden_key_enter_witness:
  "KeyEvent_str
     \<lparr>scancode = 28, KeyEvent.keycode = Name ''KEY_ENTER'', keystate = Some 0,
        KeyEvent.event = \<lparr>sec = 1337197425, usec = 477835, type = 1, code = 28, val = 0\<rparr>\<rparr> =
   Inr ''key event at 1337197425.477835, 28 (KEY_ENTER), up''"
  using golden_key_enter [of demo_ecodes, OF demo_keys_28]
  by (simp add: demo_ecodes_def key_up_def)

lemma docstring_quotient:
  "round_to_double (477827 / 1000000) = Finite (1075970749573781 / 2251799813685248)"
  using round_to_double_eval [of "- 2" "477827 / 1000000" 8607765996590248]
  by (simp add: pow2_def)

lemma docstring_sum:
  "round_to_double (1337197425 + 1075970749573781 / 2251799813685248) =
     Finite (701076563808919 / 524288)"
  using round_to_double_eval
    [of 30 "1337197425 + 1075970749573781 / 2251799813685248" 5608612510471352]
  by (simp add: pow2_def)

lemma docstring_timestamp:
  "timestamp \<lparr>sec = 1337197425, usec = 477827, type = t, code = c, val = v\<rparr> =
     Inr (Finite (701076563808919 / 524288))"
proof (rule timestamp_eval)
  let ?ev = "\<lparr>sec = 1337197425, usec = 477827, type = t, code = c, val = v\<rparr>"
  show "\<bar>sec ?ev\<bar> < 2 ^ 53" "\<bar>usec ?ev\<bar> < 2 ^ 53"
    by simp_all
  have "of_int (usec ?ev) / 1000000 = (477827 / 1000000 :: rat)"
    by simp
  then show "round_to_double (of_int (usec ?ev) / 1000000) =
      Finite (1075970749573781 / 2251799813685248)"
    by (simp only: docstring_quotient)
  have "of_int (sec ?ev) + 1075970749573781 / 2251799813685248 =
      (1337197425 + 1075970749573781 / 2251799813685248 :: rat)"
    by simp
  then show "round_to_double (of_int (sec ?ev) + 1075970749573781 / 2251799813685248) =
      Finite (701076563808919 / 524288)"
    by (simp only: docstring_sum)
qed

lemma docstring_formats:
  "format_fixed 6 (Finite (701076563808919 / 524288)) = ''1337197425.477827''"
  "format_int 10 2 4 = ''04''"
  "format_int 10 2 458792 = ''458792''"
  "format_fixed 6 (Finite (5608612510471385 / 4194304)) = ''1337197425.477835''"
  "str_int (- 5) = ''-5''"
  by code_simp+

lemma timestamp_total:
  assumes "0 \<le> sec s" "sec s < 2 ^ 64" "0 \<le> usec s" "usec s < 2 ^ 64"
  shows "\<exists>ts. timestamp s = Inr ts"
  using timestamp_steps [OF assms] by blast

text \<open>
  C9.  The display strings.  The timestamp of an event with unsigned 64-bit \<open>sec\<close> and
  \<open>usec\<close> is defined, and with the timestamp \<open>ts\<close> the generic event renders as
  \<open>event at {ts:.6f}, code {code:02d}, type {type:02d}, val {value:02d}\<close>, a relative
  axis event as \<open>relative axis event at {ts:.6f}, {keycode} {value} \<close>, an absolute axis
  event as \<open>absolute axis event at {ts:.6f}, {keycode} {value} \<close>, and a synchronization
  event as \<open>synchronization event at {ts:.6f}, {keycode} \<close>, the last three ending
  with a space.
\<close>

theorem display_strings:
  "(0 \<le> sec s \<and> sec s < 2 ^ 64 \<and> 0 \<le> usec s \<and> usec s < 2 ^ 64 \<longrightarrow>
      (\<exists>ts. timestamp s = Inr ts)) \<and>
   (timestamp s = Inr ts \<longrightarrow>
      InputEvent_str s =
        Inr (''event at '' @ format_fixed 6 ts @ '', code '' @ format_int 10 2 (code s)
             @ '', type '' @ format_int 10 2 (type s)
             @ '', val '' @ format_int 10 2 (val s))) \<and>
   (timestamp (RelEvent.event r) = Inr tr \<longrightarrow>
      RelEvent_str r =
        Inr (''relative axis event at '' @ format_fixed 6 tr @ '', ''
             @ str_entry (RelEvent.keycode r) @ '' ''
             @ str_int (val (RelEvent.event r)) @ '' '')) \<and>
   (timestamp (AbsEvent.event a) = Inr ta \<longrightarrow>
      AbsEvent_str a =
        Inr (''absolute axis event at '' @ format_fixed 6 ta @ '', ''
             @ str_entry (AbsEvent.keycode a) @ '' ''
             @ str_int (val (AbsEvent.event a)) @ '' '')) \<and>
   (timestamp (SynEvent.event y) = Inr ty \<longrightarrow>
      SynEvent_str y =
        Inr (''synchronization event at '' @ format_fixed 6 ty @ '', ''
             @ str_entry (SynEvent.keycode y) @ '' ''))"
proof (intro conjI impI)
  assume "0 \<le> sec s \<and> sec s < 2 ^ 64 \<and> 0 \<le> usec s \<and> usec s < 2 ^ 64"
  then show "\<exists>ts. timestamp s = Inr ts"
    by (simp add: timestamp_total)
next
  assume "timestamp s = Inr ts"
  then show "InputEvent_str s =
      Inr (''event at '' @ format_fixed 6 ts @ '', code '' @ format_int 10 2 (code s)
           @ '', type '' @ format_int 10 2 (type s)
           @ '', val '' @ format_int 10 2 (val s))"
    by (simp add: InputEvent_str_def format_f_def format_02d_def)
next
  assume "timestamp (RelEvent.event r) = Inr tr"
  then show "RelEvent_str r =
      Inr (''relative axis event at '' @ format_fixed 6 tr @ '', ''
           @ str_entry (RelEvent.keycode r) @ '' ''
           @ str_int (val (RelEvent.event r)) @ '' '')"
    by (simp add: RelEvent_str_def format_f_def)
next
  assume "timestamp (AbsEvent.event a) = Inr ta"
  then show "AbsEvent_str a =
      Inr (''absolute axis event at '' @ format_fixed 6 ta @ '', ''
           @ str_entry (AbsEvent.keycode a) @ '' ''
           @ str_int (val (AbsEvent.event a)) @ '' '')"
    by (simp add: AbsEvent_str_def format_f_def)
next
  assume "timestamp (SynEvent.event y) = Inr ty"
  then show "SynEvent_str y =
      Inr (''synchronization event at '' @ format_fixed 6 ty @ '', ''
           @ str_entry (SynEvent.keycode y) @ '' '')"
    by (simp add: SynEvent_str_def format_f_def)
qed

theorem display_strings_witness:
  "InputEvent_str \<lparr>sec = 1337197425, usec = 477827, type = 4, code = 4, val = 458792\<rparr> =
     Inr ''event at 1337197425.477827, code 04, type 04, val 458792'' \<and>
   RelEvent_str \<lparr>RelEvent.event = demo_event 2 0 (- 5), RelEvent.keycode = Name ''REL_X''\<rparr> =
     Inr ''relative axis event at 1337197425.477835, REL_X -5 '' \<and>
   AbsEvent_str \<lparr>AbsEvent.event = demo_event 3 0 (- 5), AbsEvent.keycode = Name ''ABS_X''\<rparr> =
     Inr ''absolute axis event at 1337197425.477835, ABS_X -5 '' \<and>
   SynEvent_str \<lparr>SynEvent.event = demo_event 0 0 0, SynEvent.keycode = Name ''SYN_REPORT''\<rparr> =
     Inr ''synchronization event at 1337197425.477835, SYN_REPORT ''"
  using display_strings
    [of "\<lparr>sec = 1337197425, usec = 477827, type = 4, code = 4, val = 458792\<rparr>"
        "Finite (701076563808919 / 524288)"
        "\<lparr>RelEvent.event = demo_event 2 0 (- 5), RelEvent.keycode = Name ''REL_X''\<rparr>"
        "Finite (5608612510471385 / 4194304)"
        "\<lparr>AbsEvent.event = demo_event 3 0 (- 5), AbsEvent.keycode = Name ''ABS_X''\<rparr>"
        "Finite (5608612510471385 / 4194304)"
        "\<lparr>SynEvent.event = demo_event 0 0 0, SynEvent.keycode = Name ''SYN_REPORT''\<rparr>"
        "Finite (5608612510471385 / 4194304)"]
  by (simp add: docstring_timestamp golden_timestamp docstring_formats)

section \<open>The display of a key event without a key state\<close>

text \<open>
  C4.  For the event of the docstring with the value 3, whose code is in the key table,
  the constructor succeeds and leaves \<open>keystate\<close> unassigned; the display method then
  raises \<open>AttributeError\<close> and renders nothing.  The text \<open>unknown\<close> is rendered only
  for a \<open>keystate\<close> that was assigned a value outside the tuple, which the constructor
  never does.
\<close>

theorem KeyEvent_str_value_3_raises:
  "KeyEvent_init demo_ecodes (demo_event 1 28 3) None =
     Inr \<lparr>scancode = 28, KeyEvent.keycode = Name ''KEY_ENTER'', keystate = None,
          KeyEvent.event = demo_event 1 28 3\<rparr> \<and>
   KeyEvent_str \<lparr>scancode = 28, KeyEvent.keycode = Name ''KEY_ENTER'', keystate = None,
          KeyEvent.event = demo_event 1 28 3\<rparr> = Inl (AttributeError ''keystate'') \<and>
   KeyEvent_str \<lparr>scancode = 28, KeyEvent.keycode = Name ''KEY_ENTER'', keystate = Some 3,
          KeyEvent.event = demo_event 1 28 3\<rparr> =
     Inr ''key event at 1337197425.477835, 28 (KEY_ENTER), unknown''"
proof -
  have "tuple_getitem [''up'', ''down'', ''hold''] 3 = Inl IndexError"
    by (simp add: tuple_getitem_def)
  then have "KeyEvent_ks \<lparr>scancode = 28, KeyEvent.keycode = Name ''KEY_ENTER'',
      keystate = Some 3, KeyEvent.event = demo_event 1 28 3\<rparr> = Inr ''unknown''"
    by (simp add: KeyEvent_ks_def get_keystate_def)
  then have unknown: "KeyEvent_str \<lparr>scancode = 28, KeyEvent.keycode = Name ''KEY_ENTER'',
      keystate = Some 3, KeyEvent.event = demo_event 1 28 3\<rparr> =
      Inr ''key event at 1337197425.477835, 28 (KEY_ENTER), unknown''"
    by (simp add: KeyEvent_str_def golden_timestamp golden_format str_int_28)
  have init: "KeyEvent_init demo_ecodes (demo_event 1 28 3) None =
      Inr \<lparr>scancode = 28, KeyEvent.keycode = Name ''KEY_ENTER'', keystate = None,
           KeyEvent.event = demo_event 1 28 3\<rparr>"
    by (simp add: KeyEvent_init_found demo_keys_28 keystate_of_value_def)
  have raises: "KeyEvent_str \<lparr>scancode = 28, KeyEvent.keycode = Name ''KEY_ENTER'',
      keystate = None, KeyEvent.event = demo_event 1 28 3\<rparr> =
      Inl (AttributeError ''keystate'')"
    by (simp add: KeyEvent_str_unassigned)
  from init raises unknown show ?thesis
    by (simp only: simp_thms)
qed

end
